theory Spec2Isabelle
  imports Main "HOL-Library.Char_ord" "HOL-Library.List_Lexorder" "HOL-Library.Sublist"
begin

section \<open>Paths, the file tree and the build context\<close>

text \<open>
  A \<open>pathlib\<close> path is its sequence of components; \<open>p / "a/b"\<close> is \<open>p @ [''a'', ''b'']\<close> and
  \<open>p.parent\<close> is \<open>butlast p\<close>. The empty sequence is the root directory \<open>/\<close>.
  \<open>path_str\<close> is \<open>str(p)\<close> of an absolute path.
\<close>

type_synonym path = "string list"

definition path_str :: "path \<Rightarrow> string" where
  "path_str p = (if p = [] then ''/'' else concat (map (\<lambda>c. ''/'' @ c) p))"

text \<open>
  The file tree maps a path to what is there: a regular file with its content, or a
  directory. Permission bits and time stamps are not part of the model, so the
  \<open>umask\<close> scope of \<open>setup_apt\<close> has no effect that the model records.
\<close>

datatype node = File string | Dir

type_synonym tree = "path \<Rightarrow> node option"

definition node_at :: "tree \<Rightarrow> path \<Rightarrow> node option" where
  "node_at t p = (if p = [] then Some Dir else t p)"

definition exists_at :: "tree \<Rightarrow> path \<Rightarrow> bool" where
  "exists_at t p = (node_at t p \<noteq> None)"

definition is_dir :: "tree \<Rightarrow> path \<Rightarrow> bool" where
  "is_dir t p = (node_at t p = Some Dir)"

definition is_file :: "tree \<Rightarrow> path \<Rightarrow> bool" where
  "is_file t p = (case node_at t p of Some (File _) \<Rightarrow> True | _ \<Rightarrow> False)"

text \<open>The content of the regular file at a path; empty when there is no regular file.\<close>

definition content_at :: "tree \<Rightarrow> path \<Rightarrow> string" where
  "content_at t p = (case t p of Some (File s) \<Rightarrow> s | _ \<Rightarrow> [])"

text \<open>
  The classes \<open>Config\<close> and \<open>Context\<close> are declared outside the two modules; the records
  carry the attributes and methods that the two modules read.
  \<open>architecture_name\<close> is the method \<open>distribution.architecture(arch)\<close>, \<open>tools\<close> is the
  result of \<open>config.tools()\<close>, and \<open>sandbox\<close> is the method
  \<open>context.sandbox(network=..., options=...)\<close>, which returns the argument vector of the
  sandbox.
\<close>

record distribution =
  architecture_name :: "string \<Rightarrow> string"

record config =
  distribution :: distribution
  architecture :: string
  release :: string
  with_docs :: bool
  with_recommends :: bool
  repository_key_check :: bool
  tools :: path
  environment :: "(string \<times> string) list"

record "context" =
  config :: config
  root :: path
  pkgmngr :: path
  cache_dir :: path
  workspace :: path
  packages :: path
  sandbox :: "bool \<Rightarrow> string list \<Rightarrow> string list"

text \<open>\<open>str(b).lower()\<close> for a Python \<open>bool\<close>.\<close>

definition str_bool_lower :: "bool \<Rightarrow> string" where
  "str_bool_lower b = (if b then ''true'' else ''false'')"

text \<open>
  Modelled from the spec: \<open>find_binary\<close> (module \<open>mkosi.run\<close>) is not among the source
  files. The spec says that the Debian-family \<open>build_invocation\<close> "resolves and pins the
  path to the low-level installer tool", that "a required external binary cannot be
  located" is a possible outcome, and that "paths inside the sandbox are always expressed
  relative to the sandboxed root". The model looks for a regular file of the given name in
  the \<open>usr/bin\<close> and \<open>usr/sbin\<close> directories of the tree rooted at \<open>r\<close> and returns its path
  relative to that root, or \<open>None\<close>.
\<close>

definition find_binary :: "string \<Rightarrow> path \<Rightarrow> tree \<Rightarrow> path option" where
  "find_binary name r t =
     (if is_file t (r @ [''usr'', ''bin'', name]) then Some [''usr'', ''bin'', name]
      else if is_file t (r @ [''usr'', ''sbin'', name]) then Some [''usr'', ''sbin'', name]
      else None)"

text \<open>An f-string field holding an \<open>Optional[Path]\<close>: \<open>None\<close> prints as \<open>None\<close>.\<close>

definition str_optional_path :: "path option \<Rightarrow> string" where
  "str_optional_path po = (case po of None \<Rightarrow> ''None'' | Some p \<Rightarrow> path_str p)"

section \<open>Building the argument vectors\<close>

text \<open>
  \<open>apt_cmd\<close> of \<open>apt.py\<close>. It reads the file tree through \<open>find_binary\<close>, so the tree is an
  argument of the model.
\<close>

definition apt_cmd :: "context \<Rightarrow> string \<Rightarrow> tree \<Rightarrow> string list" where
  "apt_cmd context command t =
     (let debarch = architecture_name (distribution (config context)) (architecture (config context));
          cmdline =
            [''env'',
             ''APT_CONFIG='' @ path_str (workspace context @ [''apt.conf'']),
             ''DEBIAN_FRONTEND=noninteractive'',
             ''DEBCONF_INTERACTIVE_SEEN=true'',
             ''INITRD=No'',
             command,
             ''-o'', ''APT::Architecture='' @ debarch,
             ''-o'', ''APT::Architectures='' @ debarch,
             ''-o'', ''APT::Install-Recommends='' @ str_bool_lower (with_recommends (config context)),
             ''-o'', ''APT::Immediate-Configure=off'',
             ''-o'', ''APT::Get::Assume-Yes=true'',
             ''-o'', ''APT::Get::AutomaticRemove=true'',
             ''-o'', ''APT::Get::Allow-Change-Held-Packages=true'',
             ''-o'', ''APT::Get::Allow-Remove-Essential=true'',
             ''-o'', ''APT::Sandbox::User=root'',
             ''-o'', ''Dir::Cache=/var/cache/apt'',
             ''-o'', ''Dir::State=/var/lib/apt'',
             ''-o'', ''Dir::State::Status='' @ path_str (root context @ [''var'', ''lib'', ''dpkg'', ''status'']),
             ''-o'', ''Dir::Log='' @ path_str (workspace context),
             ''-o'', ''Dir::Bin::DPkg='' @ str_optional_path (find_binary ''dpkg'' (tools (config context)) t),
             ''-o'', ''Debug::NoLocking=true'',
             ''-o'', ''DPkg::Options::=--root='' @ path_str (root context),
             ''-o'', ''DPkg::Options::=--force-unsafe-io'',
             ''-o'', ''DPkg::Options::=--force-architecture'',
             ''-o'', ''DPkg::Options::=--force-depends'',
             ''-o'', ''DPkg::Options::=--no-debsig'',
             ''-o'', ''DPkg::Use-Pty=false'',
             ''-o'', ''DPkg::Install::Recursive::Minimum=1000'',
             ''-o'', ''pkgCacheGen::ForceEssential=,''];
          cmdline =
            (if \<not> repository_key_check (config context) then
               cmdline @
                 [''-o'', ''Acquire::AllowInsecureRepositories=true'',
                  ''-o'', ''Acquire::AllowDowngradeToInsecureRepositories=true'',
                  ''-o'', ''APT::Get::AllowUnauthenticated=true'']
             else cmdline);
          cmdline =
            (if \<not> with_docs (config context) then
               cmdline @
                 [''-o'', ''DPkg::Options::=--path-exclude=/usr/share/doc/*'',
                  ''-o'', ''DPkg::Options::=--path-include=/usr/share/doc/*/copyright'',
                  ''-o'', ''DPkg::Options::=--path-exclude=/usr/share/man/*'',
                  ''-o'', ''DPkg::Options::=--path-exclude=/usr/share/groff/*'',
                  ''-o'', ''DPkg::Options::=--path-exclude=/usr/share/info/*'']
             else cmdline)
      in cmdline)"

text \<open>\<open>zypper_cmd\<close> of \<open>zypper.py\<close>.\<close>

definition zypper_cmd :: "context \<Rightarrow> string list" where
  "zypper_cmd context =
     [''env'',
      ''ZYPP_CONF=/etc/zypp/zypp.conf'',
      ''HOME=/'',
      ''zypper'',
      ''--installroot='' @ path_str (root context),
      ''--cache-dir=/var/cache/zypp'',
      (if repository_key_check (config context) then ''--gpg-auto-import-keys'' else ''--no-gpg-checks''),
      ''--non-interactive'']"

text \<open>
  The flags that the claims name, written out as the argument strings that carry them.
\<close>

definition docs_path_flags :: "string list" where
  "docs_path_flags =
     [''DPkg::Options::=--path-exclude=/usr/share/doc/*'',
      ''DPkg::Options::=--path-include=/usr/share/doc/*/copyright'',
      ''DPkg::Options::=--path-exclude=/usr/share/man/*'',
      ''DPkg::Options::=--path-exclude=/usr/share/groff/*'',
      ''DPkg::Options::=--path-exclude=/usr/share/info/*'']"

definition insecure_flags :: "string list" where
  "insecure_flags =
     [''Acquire::AllowInsecureRepositories=true'',
      ''Acquire::AllowDowngradeToInsecureRepositories=true'',
      ''APT::Get::AllowUnauthenticated=true'']"

text \<open>Each flag is passed as the value of an \<open>-o\<close> option.\<close>

definition as_options :: "string list \<Rightarrow> string list" where
  "as_options fs = concat (map (\<lambda>f. [''-o'', f]) fs)"

section \<open>Programs on the file tree\<close>

text \<open>
  A Python exception does not undo what was written before it: a program maps a state to
  its outcome (\<open>Inl\<close> the exception raised, \<open>Inr\<close> the value returned) and the state reached.
\<close>

datatype error =
    FileExistsError | FileNotFoundError | NotADirectoryError | IsADirectoryError
  | CalledProcessError nat | CollaboratorError string

text \<open>A sequence of statements: the first exception ends it.\<close>

fun steps :: "('s \<Rightarrow> (error + unit) \<times> 's) list \<Rightarrow> 's \<Rightarrow> (error + unit) \<times> 's" where
  "steps [] s = (Inr (), s)"
| "steps (m # ms) s = (case m s of (Inl e, s') \<Rightarrow> (Inl e, s') | (Inr u, s') \<Rightarrow> steps ms s')"

text \<open>Creating a new entry: the parent has to be a directory.\<close>

definition create_at :: "path \<Rightarrow> node \<Rightarrow> tree \<Rightarrow> (error + unit) \<times> tree" where
  "create_at p n t =
     (case node_at t (butlast p) of
        None \<Rightarrow> (Inl FileNotFoundError, t)
      | Some (File _) \<Rightarrow> (Inl NotADirectoryError, t)
      | Some Dir \<Rightarrow> (Inr (), t(p \<mapsto> n)))"

text \<open>\<open>os.mkdir(p)\<close>.\<close>

definition os_mkdir :: "path \<Rightarrow> tree \<Rightarrow> (error + unit) \<times> tree" where
  "os_mkdir p t = (if exists_at t p then (Inl FileExistsError, t) else create_at p Dir t)"

text \<open>
  \<open>Path.mkdir(parents=False, exist_ok=True)\<close>: a missing parent is raised; any other
  \<open>OSError\<close> is swallowed when the path is a directory.
\<close>

definition mkdir_exist_ok :: "path \<Rightarrow> tree \<Rightarrow> (error + unit) \<times> tree" where
  "mkdir_exist_ok p t =
     (case os_mkdir p t of
        (Inr u, t') \<Rightarrow> (Inr (), t')
      | (Inl e, _) \<Rightarrow>
          if e = FileNotFoundError then (Inl e, t)
          else if is_dir t p then (Inr (), t) else (Inl e, t))"

text \<open>
  \<open>Path.mkdir(parents=True, exist_ok=True)\<close>, as \<open>pathlib\<close> writes it: on a missing parent
  it makes the parent the same way and then the directory itself.
\<close>

function mkdir :: "path \<Rightarrow> tree \<Rightarrow> (error + unit) \<times> tree" where
  "mkdir p t =
     (case os_mkdir p t of
        (Inr u, t') \<Rightarrow> (Inr (), t')
      | (Inl e, _) \<Rightarrow>
          if e = FileNotFoundError then
            (if p = [] then (Inl e, t)
             else (case mkdir (butlast p) t of
                     (Inl e', t') \<Rightarrow> (Inl e', t')
                   | (Inr u, t') \<Rightarrow> mkdir_exist_ok p t'))
          else if is_dir t p then (Inr (), t) else (Inl e, t))"
  by pat_completeness auto
termination
  by (relation "measure (\<lambda>(p, t). length p)") auto

declare mkdir.simps [simp del]

text \<open>\<open>Path.touch()\<close>: an existing path is left as it is, otherwise an empty file is made.\<close>

definition touch :: "path \<Rightarrow> tree \<Rightarrow> (error + unit) \<times> tree" where
  "touch p t = (if exists_at t p then (Inr (), t) else create_at p (File []) t)"

text \<open>
  \<open>Path.write_text(s)\<close>, and \<open>open("w")\<close> followed by writes that add up to \<open>s\<close>: the file is
  created or truncated.
\<close>

definition write_text :: "path \<Rightarrow> string \<Rightarrow> tree \<Rightarrow> (error + unit) \<times> tree" where
  "write_text p s t =
     (case node_at t p of
        Some Dir \<Rightarrow> (Inl IsADirectoryError, t)
      | Some (File _) \<Rightarrow> (Inr (), t(p \<mapsto> File s))
      | None \<Rightarrow> create_at p (File s) t)"

text \<open>\<open>open("a")\<close> followed by a write of \<open>s\<close>: the file is created, or \<open>s\<close> is added at its end.\<close>

definition append_text :: "path \<Rightarrow> string \<Rightarrow> tree \<Rightarrow> (error + unit) \<times> tree" where
  "append_text p s t =
     (case node_at t p of
        Some Dir \<Rightarrow> (Inl IsADirectoryError, t)
      | Some (File old) \<Rightarrow> (Inr (), t(p \<mapsto> File (old @ s)))
      | None \<Rightarrow> create_at p (File s) t)"

section \<open>Text helpers\<close>

text \<open>
  \<open>textwrap.dedent\<close> of the Python standard library: lines of blanks only are emptied, the
  margin is the longest common prefix of the leading blanks (spaces and tabs) of the
  other non-empty lines, and the margin is removed from every line that starts with it.
\<close>

definition is_blank :: "char \<Rightarrow> bool" where
  "is_blank c = (c = CHR '' '' \<or> c = CHR 0x09)"

fun split_lines :: "string \<Rightarrow> string list" where
  "split_lines [] = [[]]"
| "split_lines (c # cs) =
     (if c = CHR ''\<newline>'' then [] # split_lines cs
      else (case split_lines cs of [] \<Rightarrow> [[c]] | l # ls \<Rightarrow> (c # l) # ls))"

fun join_lines :: "string list \<Rightarrow> string" where
  "join_lines [] = []"
| "join_lines [l] = l"
| "join_lines (l # ls) = l @ CHR ''\<newline>'' # join_lines ls"

fun common_prefix :: "string \<Rightarrow> string \<Rightarrow> string" where
  "common_prefix (x # xs) (y # ys) = (if x = y then x # common_prefix xs ys else [])"
| "common_prefix _ _ = []"

fun margin_of :: "string list \<Rightarrow> string" where
  "margin_of [] = []"
| "margin_of [i] = i"
| "margin_of (i # is) = common_prefix i (margin_of is)"

definition strip_margin :: "string \<Rightarrow> string \<Rightarrow> string" where
  "strip_margin m l = (if take (length m) l = m then drop (length m) l else l)"

definition dedent :: "string \<Rightarrow> string" where
  "dedent text =
     (let ls = map (\<lambda>l. if list_all is_blank l then [] else l) (split_lines text);
          indents = map (takeWhile is_blank) (filter (\<lambda>l. l \<noteq> []) ls);
          margin = margin_of indents
      in join_lines (map (strip_margin margin) ls))"

text \<open>\<open>str(n)\<close> for a natural number, and \<open>str(int(b))\<close> for a \<open>bool\<close>.\<close>

fun str_nat :: "nat \<Rightarrow> string" where
  "str_nat n = (if n < 10 then [''0123456789'' ! n] else str_nat (n div 10) @ [''0123456789'' ! (n mod 10)])"

declare str_nat.simps [simp del]

definition str_int_bool :: "bool \<Rightarrow> string" where
  "str_int_bool b = (if b then ''1'' else ''0'')"

text \<open>
  Modelled from the spec: \<open>yes_no\<close> (module \<open>mkosi.config\<close>) is not among the source files.
  The spec says that the tuning block is "disabling documentation installation per
  configuration"; the helper prints a \<open>bool\<close> as the word \<open>yes\<close> or \<open>no\<close>.
\<close>

definition yes_no :: "bool \<Rightarrow> string" where
  "yes_no b = (if b then ''yes'' else ''no'')"

text \<open>
  Modelled from the spec: \<open>sort_packages\<close> (module \<open>mkosi.util\<close>) is not among the source
  files. The spec says that the package name set "must be deduplicated and sorted before
  becoming part of any command line" and that "package lists in any generated command
  line are always lexicographically sorted". Strings are ordered as Python orders them,
  character by character.
\<close>

definition sort_packages :: "string list \<Rightarrow> string list" where
  "sort_packages names = sort (remdups names)"

section \<open>Collaborators and the world\<close>

text \<open>
  The arguments of one call of \<open>run\<close>: the argument vector, the file that receives the
  standard output (if one is given), the sandbox vector and the environment.
\<close>

record run_args =
  cmdline :: "string list"
  stdout :: "path option"
  sandbox_args :: "string list"
  env :: "(string \<times> string) list"

text \<open>
  What the two modules import and call but do not define. \<open>exec\<close> is the external process
  that \<open>run\<close> starts: its exit status and what it does to the file tree.
  \<open>enter_source_mounts\<close> and \<open>exit_source_mounts\<close> are the two halves of the context manager
  \<open>finalize_ephemeral_source_mounts\<close>; the spec calls its result "scoped to the call", and
  the model takes its exit as a cleanup that lets an exception of the body pass.
\<close>

record collaborators =
  exec :: "run_args \<Rightarrow> tree \<Rightarrow> nat \<times> tree"
  enter_source_mounts :: "config \<Rightarrow> tree \<Rightarrow> (error + string list) \<times> tree"
  exit_source_mounts :: "config \<Rightarrow> tree \<Rightarrow> tree"
  finalize_package_manager_mounts :: "context \<Rightarrow> string list"
  apivfs_cmd :: "path \<Rightarrow> string list"
  setup_rpm :: "context \<Rightarrow> tree \<Rightarrow> (error + unit) \<times> tree"
  fixup_rpmdb_location :: "context \<Rightarrow> tree \<Rightarrow> (error + unit) \<times> tree"

text \<open>
  The world of an invocation: the file tree and the log of the calls made to external
  processes and to the rpm database fixup, in the order in which they were made.
\<close>

datatype call = Run run_args | Fixup_rpmdb_location

record world =
  files :: tree
  calls :: "call list"

definition on_files :: "(tree \<Rightarrow> (error + unit) \<times> tree) \<Rightarrow> world \<Rightarrow> (error + unit) \<times> world" where
  "on_files m w = (case m (files w) of (r, t') \<Rightarrow> (r, w\<lparr>files := t'\<rparr>))"

text \<open>
  Modelled from the spec: \<open>run\<close> (module \<open>mkosi.run\<close>) is not among the source files. The
  spec says that \<open>invoke\<close> "propagates the external process's failure" and that "a non-zero
  status is surfaced to the caller": \<open>run\<close> starts the process, and raises when its exit
  status is not zero.
\<close>

definition run :: "collaborators \<Rightarrow> run_args \<Rightarrow> world \<Rightarrow> (error + unit) \<times> world" where
  "run K args w =
     (case exec K args (files w) of
        (status, t') \<Rightarrow>
          (if status = 0 then Inr () else Inl (CalledProcessError status),
           \<lparr>files = t', calls = calls w @ [Run args]\<rparr>))"

text \<open>\<open>with finalize_ephemeral_source_mounts(config) as sources: body\<close>.\<close>

definition with_source_mounts ::
  "collaborators \<Rightarrow> config \<Rightarrow> (string list \<Rightarrow> world \<Rightarrow> (error + unit) \<times> world) \<Rightarrow>
     world \<Rightarrow> (error + unit) \<times> world" where
  "with_source_mounts K cfg body w =
     (case enter_source_mounts K cfg (files w) of
        (Inl e, t1) \<Rightarrow> (Inl e, w\<lparr>files := t1\<rparr>)
      | (Inr sources, t1) \<Rightarrow>
          (case body sources (w\<lparr>files := t1\<rparr>) of
             (r, w2) \<Rightarrow> (r, w2\<lparr>files := exit_source_mounts K cfg (files w2)\<rparr>)))"

section \<open>The Debian-family backend\<close>

text \<open>The loop of \<open>setup_apt\<close> that writes the source list; \<open>f\<close> is what was written so far.\<close>

fun write_sources :: "string list \<Rightarrow> string \<Rightarrow> string" where
  "write_sources [] f = f"
| "write_sources (repo # repos) f = write_sources repos (f @ repo @ ''\<newline>'')"

definition setup_apt :: "context \<Rightarrow> string list \<Rightarrow> tree \<Rightarrow> (error + unit) \<times> tree" where
  "setup_apt context repos =
     steps
       [mkdir (pkgmngr context @ [''etc'', ''apt'']),
        mkdir (pkgmngr context @ [''etc'', ''apt'', ''apt.conf.d'']),
        mkdir (pkgmngr context @ [''etc'', ''apt'', ''preferences.d'']),
        mkdir (pkgmngr context @ [''etc'', ''apt'', ''sources.list.d'']),
        mkdir (root context @ [''var'', ''lib'', ''dpkg'']),
        touch (root context @ [''var'', ''lib'', ''dpkg'', ''status'']),
        mkdir (cache_dir context @ [''lib'', ''apt'']),
        mkdir (cache_dir context @ [''cache'', ''apt'']),
        (\<lambda>t. let config = workspace context @ [''apt.conf''] in
              if \<not> exists_at t config then
                write_text config
                  (dedent (''                Dir::Etc '' @ [CHR 0x22] @ ''etc/apt'' @ [CHR 0x22] @
                           '';\<newline>                '')) t
              else (Inr (), t)),
        (\<lambda>t. let sources = pkgmngr context @ [''etc'', ''apt'', ''sources.list''] in
              if \<not> exists_at t sources then write_text sources (write_sources repos []) t
              else (Inr (), t))]"

text \<open>
  \<open>invoke_apt\<close>; \<open>names\<close> is its parameter \<open>packages\<close>. \<open>apt_cmd\<close> is evaluated inside the
  \<open>with\<close> block, on the file tree that the source mounts left.
\<close>

definition invoke_apt ::
  "collaborators \<Rightarrow> context \<Rightarrow> string \<Rightarrow> string \<Rightarrow> string list \<Rightarrow> bool \<Rightarrow> string list \<Rightarrow>
     world \<Rightarrow> (error + unit) \<times> world" where
  "invoke_apt K context command operation names apivfs mounts =
     with_source_mounts K (config context) (\<lambda>sources w.
       run K
         \<lparr>cmdline = apt_cmd context command (files w) @ [operation] @ sort_packages names,
          stdout = None,
          sandbox_args =
            sandbox context True
              ([''--bind'', path_str (root context), path_str (root context)] @
               finalize_package_manager_mounts K context @
               sources @
               mounts @
               [''--chdir'', ''/work/src'']) @
            (if apivfs then apivfs_cmd K (root context) else []),
          env = environment (config context)\<rparr> w)"

text \<open>
  \<open>createrepo_apt\<close>. The index file is opened for writing before the indexing tool runs
  with it as its standard output; the call of \<open>run\<close> passes no environment. The text of
  the repository definition is the f-string as the source has it; \<open>textwrap.dedent\<close> is not
  applied to it.
\<close>

definition createrepo_apt :: "collaborators \<Rightarrow> context \<Rightarrow> world \<Rightarrow> (error + unit) \<times> world" where
  "createrepo_apt K context =
     steps
       [on_files (write_text (packages context @ [''Packages'']) []),
        run K
          \<lparr>cmdline = [''dpkg-scanpackages'', path_str (packages context)],
           stdout = Some (packages context @ [''Packages'']),
           sandbox_args =
             sandbox context False
               [''--ro-bind'', path_str (packages context), path_str (packages context)],
           env = []\<rparr>,
        on_files (mkdir (pkgmngr context @ [''etc'', ''apt'', ''sources.list.d''])),
        on_files
          (write_text (pkgmngr context @ [''etc'', ''apt'', ''sources.list.d'', ''mkosi-packages.sources''])
             (''        Enabled: yes\<newline>        Types: deb\<newline>        URIs: file:///work/packages\<newline>        Suites: '' @
              release (config context) @
              ''\<newline>        Components: main\<newline>        Trusted: yes\<newline>        ''))]"

section \<open>The RPM-family backend\<close>

record rpm_repository =
  id_repo :: string
  url :: string
  gpgurls :: "string list"
  enabled :: bool

text \<open>
  The loop over \<open>enumerate(repo.gpgurls)\<close>: \<open>i\<close> is the index, \<open>f\<close> is what was written so far.
\<close>

fun write_gpgkeys :: "nat \<Rightarrow> string list \<Rightarrow> string \<Rightarrow> string" where
  "write_gpgkeys i [] f = f"
| "write_gpgkeys i (u # urls) f =
     write_gpgkeys (Suc i) urls
       ((f @ (if i = 0 then ''gpgkey='' else replicate (length ''gpgkey='') CHR '' '')) @
        u @ ''\<newline>'')"

text \<open>
  The lines that the spec describes for the signing-key URLs of one descriptor: line 1 is
  \<open>gpgkey=\<close> followed by the first URL, and every further line is the URL after as many
  spaces as \<open>gpgkey=\<close> has characters.
\<close>

definition gpgkey_lines :: "string list \<Rightarrow> string list" where
  "gpgkey_lines urls =
     (case urls of
        [] \<Rightarrow> []
      | u # us \<Rightarrow> (''gpgkey='' @ u) # map (\<lambda>v. replicate (length ''gpgkey='') CHR '' '' @ v) us)"

text \<open>
  The f-string that \<open>setup_zypper\<close> writes for one descriptor, before \<open>textwrap.dedent\<close>, and
  the loop over \<open>repos\<close> that writes the repo file.
\<close>

definition repo_stanza :: "rpm_repository \<Rightarrow> string" where
  "repo_stanza repo =
     ''                        ['' @ id_repo repo @
     '']\<newline>                        name='' @ id_repo repo @
     ''\<newline>                        '' @ url repo @
     ''\<newline>                        gpgcheck=1\<newline>                        enabled='' @
     str_int_bool (enabled repo) @
     ''\<newline>                        autorefresh=1\<newline>                        keeppackages=1\<newline>                        ''"

fun write_repos :: "rpm_repository list \<Rightarrow> string \<Rightarrow> string" where
  "write_repos [] f = f"
| "write_repos (repo # repos) f =
     write_repos repos (write_gpgkeys 0 (gpgurls repo) (f @ dedent (repo_stanza repo)))"

text \<open>The f-string that \<open>setup_zypper\<close> appends to \<open>zypp.conf\<close>, before \<open>textwrap.dedent\<close>.\<close>

definition main_block :: "context \<Rightarrow> string" where
  "main_block context =
     ''\<newline>                [main]\<newline>                rpm.install.excludedocs = '' @
     yes_no (\<not> with_docs (config context)) @
     ''\<newline>                repo.refresh.delay = '' @
     str_nat (48 * 60) @
     ''\<newline>                ''"

definition setup_zypper ::
  "collaborators \<Rightarrow> context \<Rightarrow> rpm_repository list \<Rightarrow> tree \<Rightarrow> (error + unit) \<times> tree" where
  "setup_zypper K context repos =
     steps
       [mkdir (butlast (pkgmngr context @ [''etc'', ''zypp'', ''zypp.conf''])),
        mkdir (cache_dir context @ [''cache'', ''zypp'']),
        append_text (pkgmngr context @ [''etc'', ''zypp'', ''zypp.conf''])
          (dedent (main_block context)),
        (\<lambda>t. let repofile = pkgmngr context @ [''etc'', ''zypp'', ''repos.d'', ''mkosi.repo''] in
              if \<not> exists_at t repofile then
                steps [mkdir (butlast repofile), write_text repofile (write_repos repos [])] t
              else (Inr (), t)),
        setup_rpm K context]"

text \<open>
  \<open>invoke_zypper\<close>; \<open>names\<close> is its parameter \<open>packages\<close>. The fixup is the statement after
  the \<open>with\<close> block.
\<close>

definition invoke_zypper ::
  "collaborators \<Rightarrow> context \<Rightarrow> string \<Rightarrow> string list \<Rightarrow> string list \<Rightarrow> bool \<Rightarrow>
     world \<Rightarrow> (error + unit) \<times> world" where
  "invoke_zypper K context verb names options apivfs =
     steps
       [with_source_mounts K (config context) (\<lambda>sources w.
          run K
            \<lparr>cmdline = zypper_cmd context @ [verb] @ options @ sort_packages names,
             stdout = None,
             sandbox_args =
               sandbox context True
                 ([''--bind'', path_str (root context), path_str (root context)] @
                  finalize_package_manager_mounts K context @
                  sources @
                  [''--chdir'', ''/work/src'']) @
               (if apivfs then apivfs_cmd K (root context) else []),
             env = environment (config context)\<rparr> w),
        (\<lambda>w. case fixup_rpmdb_location K context (files w) of
               (r, t') \<Rightarrow> (r, \<lparr>files = t', calls = calls w @ [Fixup_rpmdb_location]\<rparr>))]"

section \<open>Example inputs\<close>

text \<open>
  Build contexts, file trees, a repository descriptor and collaborators on which the
  definitions are evaluated.
\<close>

definition debian_names :: distribution where
  "debian_names = \<lparr>architecture_name = (\<lambda>a. if a = ''x86-64'' then ''amd64'' else a)\<rparr>"

definition example_config :: config where
  "example_config =
     \<lparr>distribution = debian_names, architecture = ''x86-64'', release = ''bookworm'',
      with_docs = False, with_recommends = True, repository_key_check = True,
      tools = [], environment = []\<rparr>"

definition example_context :: "context" where
  "example_context =
     \<lparr>config = example_config, root = [''work'', ''root''], pkgmngr = [''work'', ''pkgmngr''],
      cache_dir = [''work'', ''cache''], workspace = [''work''],
      packages = [''work'', ''packages''],
      sandbox = (\<lambda>network options. ''bwrap'' # (if network then [] else [''--unshare-net'']) @ options)\<rparr>"

definition insecure_context :: "context" where
  "insecure_context =
     example_context\<lparr>config := example_config\<lparr>with_docs := True, repository_key_check := False\<rparr>\<rparr>"

definition empty_tree :: tree where
  "empty_tree = (\<lambda>p. None)"

definition tools_tree :: tree where
  "tools_tree =
     empty_tree([''usr''] \<mapsto> Dir, [''usr'', ''bin''] \<mapsto> Dir, [''usr'', ''bin'', ''dpkg''] \<mapsto> File ''ELF'')"

definition tools_tree_with_etc :: tree where
  "tools_tree_with_etc = tools_tree([''etc''] \<mapsto> Dir)"

definition base_repo :: rpm_repository where
  "base_repo = \<lparr>id_repo = ''base'', url = ''baseurl=http://example/repo'',
     gpgurls = [''http://example/key1'', ''http://example/key2''], enabled = True\<rparr>"

definition quiet :: collaborators where
  "quiet = \<lparr>exec = (\<lambda>args t. (0, t)),
     enter_source_mounts = (\<lambda>cfg t. (Inr [''--dir'', ''/work/src''], t)),
     exit_source_mounts = (\<lambda>cfg t. t),
     finalize_package_manager_mounts = (\<lambda>c. []),
     apivfs_cmd = (\<lambda>r. []),
     setup_rpm = (\<lambda>c. mkdir (pkgmngr c @ [''etc'', ''rpm''])),
     fixup_rpmdb_location = (\<lambda>c t. (Inr (), t))\<rparr>"

definition zypp_tree :: tree where
  "zypp_tree =
     empty_tree([''work''] \<mapsto> Dir, [''work'', ''pkgmngr''] \<mapsto> Dir,
       [''work'', ''pkgmngr'', ''etc''] \<mapsto> Dir, [''work'', ''pkgmngr'', ''etc'', ''zypp''] \<mapsto> Dir,
       [''work'', ''pkgmngr'', ''etc'', ''zypp'', ''zypp.conf''] \<mapsto> File ''solver.onlyRequires = true\<newline>'')"

definition failing :: collaborators where
  "failing = quiet\<lparr>exec := (\<lambda>args t. (1, t))\<rparr>"

definition empty_world :: world where
  "empty_world = \<lparr>files = empty_tree, calls = []\<rparr>"

definition packages_tree :: tree where
  "packages_tree = empty_tree([''work''] \<mapsto> Dir, [''work'', ''packages''] \<mapsto> Dir)"

section \<open>Properties of the argument vectors\<close>

subsection \<open>Where the optional flags stand in the vector of \<open>apt_cmd\<close>\<close>

lemma apt_cmd_docs_suffix:
  "apt_cmd context command t =
     apt_cmd (context\<lparr>config := (config context)\<lparr>with_docs := True\<rparr>\<rparr>) command t @
       (if with_docs (config context) then [] else as_options docs_path_flags)"
  by (cases "with_docs (config context)"; cases "repository_key_check (config context)")
     (simp_all add: apt_cmd_def Let_def as_options_def docs_path_flags_def)

lemma apt_cmd_trust_suffix:
  "with_docs (config context) \<Longrightarrow>
   apt_cmd context command t =
     apt_cmd (context\<lparr>config := (config context)\<lparr>repository_key_check := True\<rparr>\<rparr>) command t @
       (if repository_key_check (config context) then [] else as_options insecure_flags)"
  by (cases "repository_key_check (config context)")
     (simp_all add: apt_cmd_def Let_def as_options_def insecure_flags_def)

lemma apt_cmd_plain_flags:
  assumes "with_docs (config context)" "repository_key_check (config context)"
    and "f \<in> set (insecure_flags @ docs_path_flags)" "f \<in> set (apt_cmd context command t)"
  shows "f = command"
  using assms unfolding apt_cmd_def Let_def insecure_flags_def docs_path_flags_def
  by auto

lemma as_options_member: "x \<in> set (as_options fs) \<Longrightarrow> x = ''-o'' \<or> x \<in> set fs"
  by (induction fs) (auto simp: as_options_def)

lemma flags_not_dash_o: "f \<in> set (insecure_flags @ docs_path_flags) \<Longrightarrow> f \<noteq> ''-o''"
  by (auto simp: insecure_flags_def docs_path_flags_def)

lemma flags_disjoint: "f \<in> set docs_path_flags \<Longrightarrow> f \<notin> set insecure_flags"
  by (auto simp: insecure_flags_def docs_path_flags_def)

lemma apt_cmd_flag_places:
  assumes "f \<in> set (insecure_flags @ docs_path_flags)" "f \<in> set (apt_cmd context command t)"
  shows "f = command
     \<or> (\<not> repository_key_check (config context) \<and> f \<in> set insecure_flags)
     \<or> (\<not> with_docs (config context) \<and> f \<in> set docs_path_flags)"
proof -
  let ?c1 = "context\<lparr>config := (config context)\<lparr>with_docs := True\<rparr>\<rparr>"
  let ?c2 = "?c1\<lparr>config := (config ?c1)\<lparr>repository_key_check := True\<rparr>\<rparr>"
  have d: "with_docs (config ?c1)" "with_docs (config ?c2)" "repository_key_check (config ?c2)"
    by simp_all
  note not_o = flags_not_dash_o[OF assms(1)]
  from assms(2) have "f \<in> set (apt_cmd ?c1 command t)
      \<or> (\<not> with_docs (config context) \<and> f \<in> set (as_options docs_path_flags))"
    by (subst (asm) apt_cmd_docs_suffix) (auto split: if_splits)
  then show ?thesis
  proof
    assume "f \<in> set (apt_cmd ?c1 command t)"
    then have "f \<in> set (apt_cmd ?c2 command t)
      \<or> (\<not> repository_key_check (config context) \<and> f \<in> set (as_options insecure_flags))"
      by (subst (asm) apt_cmd_trust_suffix[OF d(1)]) (auto split: if_splits)
    then show ?thesis
    proof
      assume "f \<in> set (apt_cmd ?c2 command t)"
      from apt_cmd_plain_flags[OF d(2) d(3) assms(1) this] show ?thesis by simp
    next
      assume "\<not> repository_key_check (config context) \<and> f \<in> set (as_options insecure_flags)"
      with not_o show ?thesis by (auto dest: as_options_member)
    qed
  next
    assume "\<not> with_docs (config context) \<and> f \<in> set (as_options docs_path_flags)"
    with not_o show ?thesis by (auto dest: as_options_member)
  qed
qed

subsection \<open>The documentation toggle\<close>



subsection \<open>The trust toggle\<close>

text \<open>
  Claim C5. With repository signature verification disabled, the vector of \<open>apt_cmd\<close>
  holds the three options \<open>Acquire::AllowInsecureRepositories=true\<close>,
  \<open>Acquire::AllowDowngradeToInsecureRepositories=true\<close> and
  \<open>APT::Get::AllowUnauthenticated=true\<close> as one block of \<open>-o\<close> options and nowhere else,
  and the vector of \<open>zypper_cmd\<close> holds \<open>--no-gpg-checks\<close> and not
  \<open>--gpg-auto-import-keys\<close>. With verification enabled, \<open>apt_cmd\<close> adds none of the three
  (only the caller's command word could be one of these strings), and \<open>zypper_cmd\<close>
  holds \<open>--gpg-auto-import-keys\<close> and not \<open>--no-gpg-checks\<close>. So exactly one of the two
  zypper flags is present in every vector.
\<close>

theorem trust_toggle:
  "(repository_key_check (config context) \<longrightarrow>
      (\<forall>f\<in>set insecure_flags. f \<in> set (apt_cmd context command t) \<longrightarrow> f = command)
      \<and> ''--gpg-auto-import-keys'' \<in> set (zypper_cmd context)
      \<and> ''--no-gpg-checks'' \<notin> set (zypper_cmd context))
   \<and> (\<not> repository_key_check (config context) \<longrightarrow>
      (\<exists>pre post. apt_cmd context command t = pre @ as_options insecure_flags @ post
         \<and> (\<forall>f\<in>set insecure_flags. (f \<in> set pre \<longrightarrow> f = command) \<and> f \<notin> set post))
      \<and> ''--no-gpg-checks'' \<in> set (zypper_cmd context)
      \<and> ''--gpg-auto-import-keys'' \<notin> set (zypper_cmd context))"
proof (intro conjI impI)
  assume k: "repository_key_check (config context)"
  show "\<forall>f\<in>set insecure_flags. f \<in> set (apt_cmd context command t) \<longrightarrow> f = command"
    using k apt_cmd_flag_places[of _ "context" command t] flags_disjoint by auto
  show "''--gpg-auto-import-keys'' \<in> set (zypper_cmd context)"
    using k by (simp add: zypper_cmd_def)
  show "''--no-gpg-checks'' \<notin> set (zypper_cmd context)"
    using k by (simp add: zypper_cmd_def)
next
  assume nk: "\<not> repository_key_check (config context)"
  show "''--no-gpg-checks'' \<in> set (zypper_cmd context)"
    using nk by (simp add: zypper_cmd_def)
  show "''--gpg-auto-import-keys'' \<notin> set (zypper_cmd context)"
    using nk by (simp add: zypper_cmd_def)
  let ?c1 = "context\<lparr>config := (config context)\<lparr>with_docs := True\<rparr>\<rparr>"
  let ?c2 = "?c1\<lparr>config := (config ?c1)\<lparr>repository_key_check := True\<rparr>\<rparr>"
  let ?post = "if with_docs (config context) then [] else as_options docs_path_flags"
  have d: "with_docs (config ?c1)" "with_docs (config ?c2)" "repository_key_check (config ?c2)"
    by simp_all
  have "apt_cmd ?c1 command t = apt_cmd ?c2 command t @ as_options insecure_flags"
    using apt_cmd_trust_suffix[OF d(1), of command t] nk by simp
  then have shape: "apt_cmd context command t = apt_cmd ?c2 command t @ as_options insecure_flags @ ?post"
    using apt_cmd_docs_suffix[of "context" command t] by simp
  have pre: "\<forall>f\<in>set insecure_flags. f \<in> set (apt_cmd ?c2 command t) \<longrightarrow> f = command"
    using apt_cmd_plain_flags[OF d(2) d(3), of _ command t] by auto
  have post: "\<forall>f\<in>set insecure_flags. f \<notin> set ?post"
    using flags_not_dash_o flags_disjoint by (auto dest!: as_options_member)
  from shape pre post
  show "\<exists>pre post. apt_cmd context command t = pre @ as_options insecure_flags @ post
         \<and> (\<forall>f\<in>set insecure_flags. (f \<in> set pre \<longrightarrow> f = command) \<and> f \<notin> set post)"
    by blast
qed

theorem trust_toggle_witness:
  "repository_key_check (config example_context)
   \<and> ''APT::Get::AllowUnauthenticated=true'' \<notin> set (apt_cmd example_context ''apt-get'' tools_tree)
   \<and> ''--gpg-auto-import-keys'' \<in> set (zypper_cmd example_context)
   \<and> ''--no-gpg-checks'' \<notin> set (zypper_cmd example_context)
   \<and> \<not> repository_key_check (config insecure_context)
   \<and> ''APT::Get::AllowUnauthenticated=true'' \<in> set (apt_cmd insecure_context ''apt-get'' tools_tree)
   \<and> ''--no-gpg-checks'' \<in> set (zypper_cmd insecure_context)
   \<and> ''--gpg-auto-import-keys'' \<notin> set (zypper_cmd insecure_context)"
proof -
  have a: "repository_key_check (config example_context)"
    "\<not> repository_key_check (config insecure_context)"
    by (simp_all add: example_context_def example_config_def insecure_context_def)
  have b: "''APT::Get::AllowUnauthenticated=true'' \<in> set insecure_flags"
    "''APT::Get::AllowUnauthenticated=true'' \<noteq> ''apt-get''"
    by (simp_all add: insecure_flags_def)
  note on = trust_toggle[of example_context "''apt-get''" tools_tree]
  note off = trust_toggle[of insecure_context "''apt-get''" tools_tree]
  from a(2) off obtain pre post where
    shape: "apt_cmd insecure_context ''apt-get'' tools_tree = pre @ as_options insecure_flags @ post"
    by blast
  have "''APT::Get::AllowUnauthenticated=true'' \<in> set (apt_cmd insecure_context ''apt-get'' tools_tree)"
    unfolding shape by (simp add: as_options_def insecure_flags_def)
  moreover have "''APT::Get::AllowUnauthenticated=true'' \<notin> set (apt_cmd example_context ''apt-get'' tools_tree)"
    using a(1) b on by blast
  ultimately show ?thesis using a on off by simp
qed

subsection \<open>What the argument vectors depend on\<close>

text \<open>
  Claim C2, as stated, fails for \<open>apt_cmd\<close>: the same context and command give two
  different vectors on two file trees, because the vector carries the path at which
  \<open>find_binary\<close> finds \<open>dpkg\<close> in the tools tree.
\<close>

theorem apt_cmd_reads_file_tree:
  "apt_cmd example_context ''apt-get'' tools_tree \<noteq> apt_cmd example_context ''apt-get'' empty_tree"
  by (simp add: apt_cmd_def Let_def example_context_def example_config_def tools_tree_def
      empty_tree_def find_binary_def is_file_def node_at_def str_optional_path_def path_str_def)

text \<open>
  Claim C2, amended. \<open>zypper_cmd\<close> is a function of the context alone, and of its target
  root and trust policy only. \<open>apt_cmd\<close> returns a vector and changes nothing (the model
  has no resulting tree); two calls with the same context and command return the same
  vector whenever the lookup of \<open>dpkg\<close> in the tools tree gives the same result in the
  two file trees, so the vector depends on the file tree through that lookup only.
\<close>

theorem build_invocation_inputs:
  "(find_binary ''dpkg'' (tools (config context)) t = find_binary ''dpkg'' (tools (config context)) t'
      \<longrightarrow> apt_cmd context command t = apt_cmd context command t')
   \<and> (root context = root context' \<and>
      repository_key_check (config context) = repository_key_check (config context')
      \<longrightarrow> zypper_cmd context = zypper_cmd context')"
  by (simp add: apt_cmd_def zypper_cmd_def)

theorem build_invocation_inputs_witness:
  "find_binary ''dpkg'' (tools (config example_context)) tools_tree
     = find_binary ''dpkg'' (tools (config example_context)) tools_tree_with_etc
   \<and> tools_tree \<noteq> tools_tree_with_etc
   \<and> apt_cmd example_context ''apt-get'' tools_tree
     = apt_cmd example_context ''apt-get'' tools_tree_with_etc
   \<and> zypper_cmd example_context = zypper_cmd (example_context\<lparr>workspace := [''tmp'']\<rparr>)"
proof -
  have same: "find_binary ''dpkg'' (tools (config example_context)) tools_tree
     = find_binary ''dpkg'' (tools (config example_context)) tools_tree_with_etc"
    by (simp add: find_binary_def is_file_def node_at_def tools_tree_with_etc_def tools_tree_def)
  have differ: "tools_tree \<noteq> tools_tree_with_etc"
  proof
    assume "tools_tree = tools_tree_with_etc"
    then have "tools_tree [''etc''] = tools_tree_with_etc [''etc'']" by simp
    then show False by (simp add: tools_tree_with_etc_def tools_tree_def empty_tree_def)
  qed
  from same differ
    build_invocation_inputs[of example_context tools_tree tools_tree_with_etc "''apt-get''"
      "example_context\<lparr>workspace := [''tmp'']\<rparr>"]
  show ?thesis by simp
qed

section \<open>Properties of the file operations\<close>

lemma create_at_cases:
  assumes "create_at p n t = (r, t')"
  shows "(r = Inr () \<and> is_dir t (butlast p) \<and> t' = t(p \<mapsto> n)) \<or> (r \<noteq> Inr () \<and> t' = t)"
  using assms by (auto simp: create_at_def is_dir_def split: option.splits node.splits)

lemma os_mkdir_cases:
  assumes "os_mkdir p t = (r, t')"
  shows "(r = Inr () \<and> t p = None \<and> p \<noteq> [] \<and> t' = t(p \<mapsto> Dir)) \<or> (r \<noteq> Inr () \<and> t' = t)"
  using assms create_at_cases[of p Dir t r t']
  by (auto simp: os_mkdir_def exists_at_def node_at_def split: if_splits)

lemma mkdir_exist_ok_cases:
  assumes "mkdir_exist_ok p t = (r, t')"
  shows "(r = Inr () \<and> t p = None \<and> p \<noteq> [] \<and> t' = t(p \<mapsto> Dir))
       \<or> (r = Inr () \<and> is_dir t p \<and> t' = t) \<or> (r \<noteq> Inr () \<and> t' = t)"
proof -
  obtain r0 t0 where o: "os_mkdir p t = (r0, t0)" by (cases "os_mkdir p t")
  from os_mkdir_cases[OF o] assms o show ?thesis
    by (auto simp: mkdir_exist_ok_def split: sum.splits if_splits)
qed


lemma mkdir_effect:
  "mkdir p t = (r, t') \<Longrightarrow> t' q = t q \<or> (t q = None \<and> t' q = Some Dir \<and> prefix q p)"
proof (induction p t arbitrary: r t' rule: mkdir.induct)
  case (1 p t)
  obtain r0 t0 where o: "os_mkdir p t = (r0, t0)" by (cases "os_mkdir p t")
  note c0 = os_mkdir_cases[OF o]
  show ?case
  proof (cases r0)
    case (Inr u)
    with o "1.prems" have "t' = t0" by (simp add: mkdir.simps[of p t])
    with c0 Inr show ?thesis by auto
  next
    case (Inl e)
    with c0 have t0: "t0 = t" by auto
    show ?thesis
    proof (cases "e = FileNotFoundError \<and> p \<noteq> []")
      case True
      obtain r1 t1 where m: "mkdir (butlast p) t = (r1, t1)" by (cases "mkdir (butlast p) t")
      from True have "e = FileNotFoundError" "p \<noteq> []" by simp_all
      from "1.IH"[OF o[symmetric] Inl this m]
      have e1: "t1 q = t q \<or> (t q = None \<and> t1 q = Some Dir \<and> prefix q (butlast p))" .
      have pb: "prefix q (butlast p) \<Longrightarrow> prefix q p"
        by (metis prefix_order.trans prefixeq_butlast)
      show ?thesis
      proof (cases r1)
        case (Inl e')
        with o \<open>r0 = Inl e\<close> True m "1.prems" have "t' = t1"
          by (simp add: mkdir.simps[of p t])
        with e1 pb show ?thesis by auto
      next
        case (Inr u)
        with o \<open>r0 = Inl e\<close> True m "1.prems" have "mkdir_exist_ok p t1 = (r, t')"
          by (simp add: mkdir.simps[of p t])
        from mkdir_exist_ok_cases[OF this] e1 pb show ?thesis
          by (cases "q = p") auto
      qed
    next
      case False
      with o Inl "1.prems" have "t' = t"
        by (auto simp: mkdir.simps[of p t] split: if_splits)
      then show ?thesis by simp
    qed
  qed
qed

lemma mkdir_success:
  "mkdir p t = (Inr (), t') \<Longrightarrow> is_dir t' p"
proof -
  assume a: "mkdir p t = (Inr (), t')"
  obtain r0 t0 where o: "os_mkdir p t = (r0, t0)" by (cases "os_mkdir p t")
  note c0 = os_mkdir_cases[OF o]
  show ?thesis
  proof (cases r0)
    case (Inr u)
    with o a c0 show ?thesis by (auto simp: mkdir.simps[of p t] is_dir_def node_at_def)
  next
    case (Inl e)
    show ?thesis
    proof (cases "e = FileNotFoundError")
      case True
      obtain r1 t1 where m: "mkdir (butlast p) t = (r1, t1)" by (cases "mkdir (butlast p) t")
      from o Inl True a m have "mkdir_exist_ok p t1 = (Inr (), t')"
        by (auto simp: mkdir.simps[of p t] split: if_splits sum.splits)
      from mkdir_exist_ok_cases[OF this] show ?thesis
        by (auto simp: is_dir_def node_at_def)
    next
      case False
      with o Inl a c0 show ?thesis by (auto simp: mkdir.simps[of p t] split: if_splits)
    qed
  qed
qed

lemma mkdir_is_dir: "is_dir t p \<Longrightarrow> mkdir p t = (Inr (), t)"
  by (simp add: mkdir.simps[of p t] os_mkdir_def exists_at_def is_dir_def)


lemma touch_cases:
  assumes "touch p t = (r, t')"
  shows "(r = Inr () \<and> exists_at t p \<and> t' = t)
       \<or> (r = Inr () \<and> t p = None \<and> p \<noteq> [] \<and> t' = t(p \<mapsto> File []))
       \<or> (r \<noteq> Inr () \<and> t' = t)"
  using assms create_at_cases[of p "File []" t r t']
  by (auto simp: touch_def exists_at_def node_at_def split: if_splits)

lemma write_text_cases:
  assumes "write_text p s t = (r, t')"
  shows "(r = Inr () \<and> p \<noteq> [] \<and> t' = t(p \<mapsto> File s)) \<or> (r \<noteq> Inr () \<and> t' = t)"
  using assms create_at_cases[of p "File s" t r t']
  by (auto simp: write_text_def node_at_def split: if_splits option.splits node.splits)

lemma append_text_cases:
  assumes "append_text p s t = (r, t')"
  shows "(r = Inr () \<and> p \<noteq> [] \<and> t p \<noteq> Some Dir \<and> t' = t(p \<mapsto> File (content_at t p @ s)))
       \<or> (r \<noteq> Inr () \<and> t' = t)"
  using assms create_at_cases[of p "File s" t r t']
  by (auto simp: append_text_def node_at_def content_at_def split: if_splits option.splits node.splits)

lemma steps_Cons_cases:
  assumes "steps (m # ms) s = (r, s2)"
  shows "(\<exists>e. m s = (Inl e, s2) \<and> r = Inl e) \<or> (\<exists>s1. m s = (Inr (), s1) \<and> steps ms s1 = (r, s2))"
  using assms by (auto split: prod.splits sum.splits)

lemma steps_Cons_success:
  "steps (m # ms) s = (Inr (), s2) \<longleftrightarrow> (\<exists>s1. m s = (Inr (), s1) \<and> steps ms s1 = (Inr (), s2))"
  by (auto split: prod.splits sum.splits)

lemma steps_single: "steps [a] s = a s"
  by (cases "a s") (auto split: sum.splits)

lemma steps_two_success:
  "steps [a, b] s = (Inr (), s') \<longleftrightarrow> (\<exists>s1. a s = (Inr (), s1) \<and> b s1 = (Inr (), s'))"
  by (cases "a s"; cases "b (snd (a s))") (auto split: sum.splits)

lemma steps_invariant:
  assumes "steps ms s = (r, s')" and "P s"
    and "\<And>m s r s'. m \<in> set ms \<Longrightarrow> P s \<Longrightarrow> m s = (r, s') \<Longrightarrow> P s'"
  shows "P s'"
  using assms
proof (induction ms arbitrary: s)
  case Nil
  then show ?case by simp
next
  case (Cons m ms)
  from steps_Cons_cases[OF Cons.prems(1)] show ?case
  proof (elim disjE exE conjE)
    fix e assume "m s = (Inl e, s')"
    with Cons.prems(2,3) show ?thesis by (meson list.set_intros(1))
  next
    fix s1 assume a: "m s = (Inr (), s1)" "steps ms s1 = (r, s')"
    have "m \<in> set (m # ms)" by simp
    from Cons.prems(3)[OF this Cons.prems(2) a(1)] have "P s1" .
    from Cons.IH[OF a(2) this] Cons.prems(3) show ?thesis by (meson list.set_intros(2))
  qed
qed

text \<open>
  A step settles when it only adds entries to the tree and, once it has succeeded, succeeds
  again without a change on every larger tree. A sequence of such steps that has succeeded
  is the identity on its own result.
\<close>

lemma steps_settled:
  assumes "\<And>m. m \<in> set ms \<Longrightarrow>
      \<exists>Q. (\<forall>t t'. m t = (Inr (), t') \<longrightarrow> t \<subseteq>\<^sub>m t' \<and> Q t')
        \<and> (\<forall>t t'. Q t \<longrightarrow> t \<subseteq>\<^sub>m t' \<longrightarrow> Q t')
        \<and> (\<forall>t. Q t \<longrightarrow> m t = (Inr (), t))"
    and "steps ms t = (Inr (), t1)"
  shows "t \<subseteq>\<^sub>m t1 \<and> (\<forall>t2. t1 \<subseteq>\<^sub>m t2 \<longrightarrow> steps ms t2 = (Inr (), t2))"
  using assms
proof (induction ms arbitrary: t)
  case Nil
  then show ?case by simp
next
  case (Cons m ms)
  from steps_Cons_success[THEN iffD1, OF Cons.prems(2)]
  obtain s1 where m: "m t = (Inr (), s1)" and rest: "steps ms s1 = (Inr (), t1)"
    by blast
  have "m \<in> set (m # ms)" by simp
  from Cons.prems(1)[OF this] obtain Q where
    q: "(\<forall>t t'. m t = (Inr (), t') \<longrightarrow> t \<subseteq>\<^sub>m t' \<and> Q t')
        \<and> (\<forall>t t'. Q t \<longrightarrow> t \<subseteq>\<^sub>m t' \<longrightarrow> Q t')
        \<and> (\<forall>t. Q t \<longrightarrow> m t = (Inr (), t))" ..
  from q have q1: "\<And>t t'. m t = (Inr (), t') \<Longrightarrow> t \<subseteq>\<^sub>m t' \<and> Q t'" by blast
  from q have q2: "\<And>t t'. Q t \<Longrightarrow> t \<subseteq>\<^sub>m t' \<Longrightarrow> Q t'" by blast
  from q have q3: "\<And>t. Q t \<Longrightarrow> m t = (Inr (), t)" by blast
  have sub: "\<And>m'. m' \<in> set ms \<Longrightarrow>
      \<exists>Q. (\<forall>t t'. m' t = (Inr (), t') \<longrightarrow> t \<subseteq>\<^sub>m t' \<and> Q t')
        \<and> (\<forall>t t'. Q t \<longrightarrow> t \<subseteq>\<^sub>m t' \<longrightarrow> Q t')
        \<and> (\<forall>t. Q t \<longrightarrow> m' t = (Inr (), t))"
  proof -
    fix m' assume "m' \<in> set ms"
    then have "m' \<in> set (m # ms)" by simp
    then show "\<exists>Q. (\<forall>t t'. m' t = (Inr (), t') \<longrightarrow> t \<subseteq>\<^sub>m t' \<and> Q t')
        \<and> (\<forall>t t'. Q t \<longrightarrow> t \<subseteq>\<^sub>m t' \<longrightarrow> Q t')
        \<and> (\<forall>t. Q t \<longrightarrow> m' t = (Inr (), t))" by (rule Cons.prems(1))
  qed
  from Cons.IH[OF sub rest]
  have ih1: "s1 \<subseteq>\<^sub>m t1" and ih2: "\<And>t2. t1 \<subseteq>\<^sub>m t2 \<Longrightarrow> steps ms t2 = (Inr (), t2)"
    by blast+
  from q1[OF m] have a: "t \<subseteq>\<^sub>m s1" "Q s1" by blast+
  have "t \<subseteq>\<^sub>m t1" using a(1) ih1 by (rule map_le_trans)
  moreover have "steps (m # ms) t2 = (Inr (), t2)" if "t1 \<subseteq>\<^sub>m t2" for t2
  proof -
    have "s1 \<subseteq>\<^sub>m t2" using ih1 that by (rule map_le_trans)
    with a(2) have "Q t2" by (rule q2)
    from q3[OF this] ih2[OF that] show ?thesis by simp
  qed
  ultimately show ?case by blast
qed

lemma is_dir_mono: "is_dir t p \<Longrightarrow> t \<subseteq>\<^sub>m t' \<Longrightarrow> is_dir t' p"
  by (auto simp: is_dir_def node_at_def map_le_def dom_def split: if_splits)

lemma exists_at_mono: "exists_at t p \<Longrightarrow> t \<subseteq>\<^sub>m t' \<Longrightarrow> exists_at t' p"
  by (auto simp: exists_at_def node_at_def map_le_def dom_def split: if_splits) 

lemma mkdir_extends: "mkdir p t = (r, t') \<Longrightarrow> t \<subseteq>\<^sub>m t'"
  unfolding map_le_def
proof
  fix q assume a: "mkdir p t = (r, t')" "q \<in> dom t"
  from mkdir_effect[OF a(1), of q] a(2) show "t q = t' q" by auto
qed

lemma mkdir_settles:
  "(\<forall>t t'. mkdir p t = (Inr (), t') \<longrightarrow> t \<subseteq>\<^sub>m t' \<and> is_dir t' p)
     \<and> (\<forall>t t'. is_dir t p \<longrightarrow> t \<subseteq>\<^sub>m t' \<longrightarrow> is_dir t' p)
     \<and> (\<forall>t. is_dir t p \<longrightarrow> mkdir p t = (Inr (), t))"
  using mkdir_extends mkdir_success is_dir_mono mkdir_is_dir by blast

lemma touch_settles:
  "(\<forall>t t'. touch p t = (Inr (), t') \<longrightarrow> t \<subseteq>\<^sub>m t' \<and> exists_at t' p)
     \<and> (\<forall>t t'. exists_at t p \<longrightarrow> t \<subseteq>\<^sub>m t' \<longrightarrow> exists_at t' p)
     \<and> (\<forall>t. exists_at t p \<longrightarrow> touch p t = (Inr (), t))"
proof (intro conjI allI impI)
  fix t t' assume a: "touch p t = (Inr (), t')"
  from touch_cases[OF a] show "t \<subseteq>\<^sub>m t'"
    by (auto simp: map_le_def)
  from touch_cases[OF a] show "exists_at t' p"
    by (auto simp: exists_at_def node_at_def)
qed (auto simp: touch_def intro: exists_at_mono)

lemma write_if_absent_settles:
  "(\<forall>t t'. (if \<not> exists_at t p then write_text p s t else (Inr (), t)) = (Inr (), t')
        \<longrightarrow> t \<subseteq>\<^sub>m t' \<and> exists_at t' p)
     \<and> (\<forall>t t'. exists_at t p \<longrightarrow> t \<subseteq>\<^sub>m t' \<longrightarrow> exists_at t' p)
     \<and> (\<forall>t. exists_at t p \<longrightarrow> (if \<not> exists_at t p then write_text p s t else (Inr (), t)) = (Inr (), t))"
proof (intro conjI allI impI)
  fix t t' assume a: "(if \<not> exists_at t p then write_text p s t else (Inr (), t)) = (Inr (), t')"
  show "t \<subseteq>\<^sub>m t'"
  proof (cases "exists_at t p")
    case True with a show ?thesis by simp
  next
    case False
    with a have w: "write_text p s t = (Inr (), t')" by simp
    from False have "t p = None" by (auto simp: exists_at_def node_at_def split: if_splits)
    with write_text_cases[OF w] show ?thesis by (auto simp: map_le_def)
  qed
  show "exists_at t' p"
  proof (cases "exists_at t p")
    case True with a show ?thesis by simp
  next
    case False
    with a have w: "write_text p s t = (Inr (), t')" by simp
    from write_text_cases[OF w] show ?thesis by (auto simp: exists_at_def node_at_def)
  qed
qed (auto intro: exists_at_mono)

lemma setup_apt_twice:
  assumes "setup_apt ctx repos t = (Inr (), t1)"
  shows "setup_apt ctx repos t1 = (Inr (), t1)"
proof -
  have "t \<subseteq>\<^sub>m t1 \<and> (\<forall>t2. t1 \<subseteq>\<^sub>m t2 \<longrightarrow> setup_apt ctx repos t2 = (Inr (), t2))"
    unfolding setup_apt_def
  proof (rule steps_settled[OF _ assms[unfolded setup_apt_def]])
    fix m
    assume "m \<in> set
        [mkdir (pkgmngr ctx @ [''etc'', ''apt'']),
        mkdir (pkgmngr ctx @ [''etc'', ''apt'', ''apt.conf.d'']),
        mkdir (pkgmngr ctx @ [''etc'', ''apt'', ''preferences.d'']),
        mkdir (pkgmngr ctx @ [''etc'', ''apt'', ''sources.list.d'']),
        mkdir (root ctx @ [''var'', ''lib'', ''dpkg'']),
        touch (root ctx @ [''var'', ''lib'', ''dpkg'', ''status'']),
        mkdir (cache_dir ctx @ [''lib'', ''apt'']),
        mkdir (cache_dir ctx @ [''cache'', ''apt'']),
        (\<lambda>t. let config = workspace ctx @ [''apt.conf''] in
              if \<not> exists_at t config then
                write_text config
                  (dedent (''                Dir::Etc '' @ [CHR 0x22] @ ''etc/apt'' @ [CHR 0x22] @
                           '';\<newline>                '')) t
              else (Inr (), t)),
        (\<lambda>t. let sources = pkgmngr ctx @ [''etc'', ''apt'', ''sources.list''] in
              if \<not> exists_at t sources then write_text sources (write_sources repos []) t
              else (Inr (), t))]"
    then consider (d) p where "m = mkdir p" | (t) p where "m = touch p"
      | (w) p s where "m = (\<lambda>t. if \<not> exists_at t p then write_text p s t else (Inr (), t))"
      unfolding Let_def set_simps insert_iff empty_iff by blast
    then show "\<exists>Q. (\<forall>t t'. m t = (Inr (), t') \<longrightarrow> t \<subseteq>\<^sub>m t' \<and> Q t')
        \<and> (\<forall>t t'. Q t \<longrightarrow> t \<subseteq>\<^sub>m t' \<longrightarrow> Q t')
        \<and> (\<forall>t. Q t \<longrightarrow> m t = (Inr (), t))"
    proof cases
      case d
      show ?thesis unfolding d by (rule exI[of _ "\<lambda>t. is_dir t p"]) (rule mkdir_settles)
    next
      case t
      show ?thesis unfolding t by (rule exI[of _ "\<lambda>t. exists_at t p"]) (rule touch_settles)
    next
      case w
      show ?thesis unfolding w by (rule exI[of _ "\<lambda>t. exists_at t p"]) (rule write_if_absent_settles)
    qed
  qed
  then show ?thesis by (simp add: map_le_refl)
qed

section \<open>Properties of \<open>setup\<close>\<close>

lemma dedent_main_block:
  "dedent (main_block ctx) =
     ''\<newline>[main]\<newline>rpm.install.excludedocs = '' @ yes_no (\<not> with_docs (config ctx)) @
     ''\<newline>repo.refresh.delay = 2880\<newline>''"
  by (cases "with_docs (config ctx)")
     (simp_all add: main_block_def yes_no_def dedent_def is_blank_def strip_margin_def str_nat.simps)

lemma setup_zypper_success:
  assumes "setup_zypper K ctx rs t = (Inr (), t')"
  obtains s1 s2 s3 s4 where
    "mkdir (pkgmngr ctx @ [''etc'', ''zypp'']) t = (Inr (), s1)"
    "mkdir (cache_dir ctx @ [''cache'', ''zypp'']) s1 = (Inr (), s2)"
    "append_text (pkgmngr ctx @ [''etc'', ''zypp'', ''zypp.conf'']) (dedent (main_block ctx)) s2 = (Inr (), s3)"
    "(if \<not> exists_at s3 (pkgmngr ctx @ [''etc'', ''zypp'', ''repos.d'', ''mkosi.repo'']) then
        steps [mkdir (pkgmngr ctx @ [''etc'', ''zypp'', ''repos.d'']),
               write_text (pkgmngr ctx @ [''etc'', ''zypp'', ''repos.d'', ''mkosi.repo'']) (write_repos rs [])] s3
      else (Inr (), s3)) = (Inr (), s4)"
    "setup_rpm K ctx s4 = (Inr (), t')"
proof -
  have b: "butlast (pkgmngr ctx @ [''etc'', ''zypp'', ''zypp.conf'']) = pkgmngr ctx @ [''etc'', ''zypp'']"
    "butlast (pkgmngr ctx @ [''etc'', ''zypp'', ''repos.d'', ''mkosi.repo'']) = pkgmngr ctx @ [''etc'', ''zypp'', ''repos.d'']"
    by (simp_all add: butlast_append)
  have n: "\<And>s s'. steps [] s = (Inr (), s') \<longleftrightarrow> s' = (s::tree)" by auto
  from assms[unfolded setup_zypper_def Let_def b steps_Cons_success n] that show ?thesis
    by (elim exE conjE) blast
qed


lemma mkdir_keeps: "mkdir p t = (r, t') \<Longrightarrow> t q \<noteq> None \<Longrightarrow> t' q = t q"
  using mkdir_effect[of p t r t' q] by auto

lemma mkdir_elsewhere: "mkdir p t = (r, t') \<Longrightarrow> \<not> prefix q p \<Longrightarrow> t' q = t q"
  using mkdir_effect[of p t r t' q] by auto

lemma write_text_elsewhere: "write_text p s t = (r, t') \<Longrightarrow> q \<noteq> p \<Longrightarrow> t' q = t q"
  using write_text_cases[of p s t r t'] by auto

lemma append_text_elsewhere: "append_text p s t = (r, t') \<Longrightarrow> q \<noteq> p \<Longrightarrow> t' q = t q"
  using append_text_cases[of p s t r t'] by auto

text \<open>The step of \<open>setup_zypper\<close> that writes the repo file when it is absent.\<close>

lemma repo_step_keeps:
  assumes "(if \<not> exists_at s p then steps [mkdir d, write_text p txt] s else (Inr (), s)) = (r, s')"
    and "s q \<noteq> None" and "q \<noteq> p \<or> exists_at s p"
  shows "s' q = s q"
proof (cases "exists_at s p")
  case True
  with assms(1) show ?thesis by simp
next
  case False
  with assms(3) have qp: "q \<noteq> p" by simp
  from False assms(1) have st: "steps [mkdir d, write_text p txt] s = (r, s')" by simp
  from steps_Cons_cases[OF st] show ?thesis
  proof (elim disjE exE conjE)
    fix e assume "mkdir d s = (Inl e, s')"
    from mkdir_keeps[OF this assms(2)] show ?thesis .
  next
    fix s1 assume a: "mkdir d s = (Inr (), s1)" "steps [write_text p txt] s1 = (r, s')"
    from mkdir_keeps[OF a(1) assms(2)] have 1: "s1 q = s q" .
    from a(2) have w: "write_text p txt s1 = (r, s')" by (simp only: steps_single)
    with write_text_elsewhere[OF w qp] 1 show ?thesis by simp
  qed
qed

lemma repo_step_success:
  assumes "(if \<not> exists_at s p then steps [mkdir d, write_text p txt] s else (Inr (), s)) = (Inr (), s')"
  shows "(exists_at s p \<and> s' = s)
       \<or> (\<not> exists_at s p \<and> (\<exists>s1. mkdir d s = (Inr (), s1) \<and> p \<noteq> [] \<and> s' = s1(p \<mapsto> File txt)))"
proof (cases "exists_at s p")
  case True
  with assms show ?thesis by simp
next
  case False
  with assms have "steps [mkdir d, write_text p txt] s = (Inr (), s')" by simp
  then obtain s1 where a: "mkdir d s = (Inr (), s1)" "write_text p txt s1 = (Inr (), s')"
    unfolding steps_two_success by blast
  from write_text_cases[OF a(2)] a(1) False show ?thesis by auto
qed

lemma setup_zypper_keeps_repofile:
  assumes frame: "\<And>s. snd (setup_rpm K ctx s) (pkgmngr ctx @ [''etc'', ''zypp'', ''repos.d'', ''mkosi.repo''])
                    = s (pkgmngr ctx @ [''etc'', ''zypp'', ''repos.d'', ''mkosi.repo''])"
    and ex: "t (pkgmngr ctx @ [''etc'', ''zypp'', ''repos.d'', ''mkosi.repo'']) \<noteq> None"
    and run: "setup_zypper K ctx rs t = (r, t')"
  shows "t' (pkgmngr ctx @ [''etc'', ''zypp'', ''repos.d'', ''mkosi.repo''])
       = t (pkgmngr ctx @ [''etc'', ''zypp'', ''repos.d'', ''mkosi.repo''])"
proof -
  let ?rf = "pkgmngr ctx @ [''etc'', ''zypp'', ''repos.d'', ''mkosi.repo'']"
  let ?P = "\<lambda>s. s ?rf = t ?rf"
  have "?P t'"
  proof (rule steps_invariant[OF run[unfolded setup_zypper_def], of ?P])
    show "?P t" by simp
  next
    fix m s r' s'
    assume m: "m \<in> set
        [mkdir (butlast (pkgmngr ctx @ [''etc'', ''zypp'', ''zypp.conf''])),
        mkdir (cache_dir ctx @ [''cache'', ''zypp'']),
        append_text (pkgmngr ctx @ [''etc'', ''zypp'', ''zypp.conf'']) (dedent (main_block ctx)),
        (\<lambda>t. let repofile = pkgmngr ctx @ [''etc'', ''zypp'', ''repos.d'', ''mkosi.repo''] in
              if \<not> exists_at t repofile then
                steps [mkdir (butlast repofile), write_text repofile (write_repos rs [])] t
              else (Inr (), t)),
        setup_rpm K ctx]"
      and P: "?P s" and ms: "m s = (r', s')"
    from P ex have sx: "s ?rf \<noteq> None" by simp
    then have sex: "exists_at s ?rf" by (simp add: exists_at_def node_at_def)
    from m consider (d) p where "m = mkdir p"
      | (a) "m = append_text (pkgmngr ctx @ [''etc'', ''zypp'', ''zypp.conf'']) (dedent (main_block ctx))"
      | (w) "m = (\<lambda>t. if \<not> exists_at t ?rf then
                steps [mkdir (butlast ?rf), write_text ?rf (write_repos rs [])] t
              else (Inr (), t))"
      | (c) "m = setup_rpm K ctx"
      unfolding Let_def set_simps insert_iff empty_iff by blast
    then have "s' ?rf = s ?rf"
    proof cases
      case d
      with ms have "mkdir p s = (r', s')" by simp
      from mkdir_keeps[OF this sx] show ?thesis .
    next
      case a
      with ms have "append_text (pkgmngr ctx @ [''etc'', ''zypp'', ''zypp.conf'']) (dedent (main_block ctx)) s = (r', s')"
        by simp
      from append_text_elsewhere[OF this, of ?rf] show ?thesis by simp
    next
      case w
      with ms sex show ?thesis by simp
    next
      case c
      with ms frame[of s] show ?thesis by simp
    qed
    with P show "?P s'" by simp
  qed
  then show ?thesis .
qed


lemma setup_zypper_makes_repofile:
  assumes frame: "\<And>s. snd (setup_rpm K ctx s) (pkgmngr ctx @ [''etc'', ''zypp'', ''repos.d'', ''mkosi.repo''])
                    = s (pkgmngr ctx @ [''etc'', ''zypp'', ''repos.d'', ''mkosi.repo''])"
    and run: "setup_zypper K ctx rs t = (Inr (), t')"
  shows "t' (pkgmngr ctx @ [''etc'', ''zypp'', ''repos.d'', ''mkosi.repo'']) \<noteq> None"
proof -
  let ?rf = "pkgmngr ctx @ [''etc'', ''zypp'', ''repos.d'', ''mkosi.repo'']"
  from run obtain s3 s4 where
    st: "(if \<not> exists_at s3 ?rf then
        steps [mkdir (pkgmngr ctx @ [''etc'', ''zypp'', ''repos.d'']),
               write_text ?rf (write_repos rs [])] s3
      else (Inr (), s3)) = (Inr (), s4)"
    and rpm: "setup_rpm K ctx s4 = (Inr (), t')"
    by (rule setup_zypper_success)
  from repo_step_success[OF st] have "s4 ?rf \<noteq> None"
    by (auto simp: exists_at_def node_at_def)
  with frame[of s4] rpm show ?thesis by simp
qed

text \<open>
  Claim C7. After a first call of \<open>setup\<close> that succeeded, a second call with the same inputs
  leaves the configuration files as they are. For the Debian-family backend the second call
  succeeds and returns the file tree unchanged, so \<open>sources.list\<close> and the auxiliary
  \<open>apt.conf\<close> are byte-identical. For the RPM-family backend \<open>mkosi.repo\<close> exists after the
  first call and is the same after the second call, whatever the outcome of the second call,
  as long as the collaborator \<open>setup_rpm\<close> leaves that file alone. The block appended to
  \<open>zypp.conf\<close> is not part of the claim.
\<close>

theorem setup_twice_keeps_configuration:
  "(setup_apt ctx repos t = (Inr (), t1) \<longrightarrow> setup_apt ctx repos t1 = (Inr (), t1))
   \<and> ((\<forall>s. snd (setup_rpm K ctx s) (pkgmngr ctx @ [''etc'', ''zypp'', ''repos.d'', ''mkosi.repo''])
              = s (pkgmngr ctx @ [''etc'', ''zypp'', ''repos.d'', ''mkosi.repo'']))
       \<and> setup_zypper K ctx rs u = (Inr (), u1) \<longrightarrow>
         u1 (pkgmngr ctx @ [''etc'', ''zypp'', ''repos.d'', ''mkosi.repo'']) \<noteq> None
         \<and> snd (setup_zypper K ctx rs u1) (pkgmngr ctx @ [''etc'', ''zypp'', ''repos.d'', ''mkosi.repo''])
            = u1 (pkgmngr ctx @ [''etc'', ''zypp'', ''repos.d'', ''mkosi.repo'']))"
proof (intro conjI impI)
  assume "setup_apt ctx repos t = (Inr (), t1)"
  then show "setup_apt ctx repos t1 = (Inr (), t1)" by (rule setup_apt_twice)
next
  let ?rf = "pkgmngr ctx @ [''etc'', ''zypp'', ''repos.d'', ''mkosi.repo'']"
  assume a: "(\<forall>s. snd (setup_rpm K ctx s) ?rf = s ?rf) \<and> setup_zypper K ctx rs u = (Inr (), u1)"
  then have frame: "\<And>s. snd (setup_rpm K ctx s) ?rf = s ?rf" by simp
  from a have run: "setup_zypper K ctx rs u = (Inr (), u1)" by simp
  from setup_zypper_makes_repofile[OF frame run] show ex: "u1 ?rf \<noteq> None" .
  obtain r2 u2 where second: "setup_zypper K ctx rs u1 = (r2, u2)"
    by (cases "setup_zypper K ctx rs u1")
  from setup_zypper_keeps_repofile[OF frame ex second] second
  show "snd (setup_zypper K ctx rs u1) ?rf = u1 ?rf" by simp
qed

lemma mkdir_not_dir: "mkdir p t = (r, t') \<Longrightarrow> t' q \<noteq> Some Dir \<Longrightarrow> t' q = t q"
  using mkdir_effect[of p t r t' q] by auto

lemma setup_zypper_prefix_kept:
  assumes frame: "\<And>s. snd (setup_rpm K ctx s) (pkgmngr ctx @ [''etc'', ''zypp'', ''zypp.conf''])
                    = s (pkgmngr ctx @ [''etc'', ''zypp'', ''zypp.conf''])"
    and prior: "t (pkgmngr ctx @ [''etc'', ''zypp'', ''zypp.conf'']) = Some (File prior)"
    and run: "setup_zypper K ctx rs t = (r, t')"
  shows "\<exists>suffix. t' (pkgmngr ctx @ [''etc'', ''zypp'', ''zypp.conf'']) = Some (File (prior @ suffix))"
proof -
  let ?zc = "pkgmngr ctx @ [''etc'', ''zypp'', ''zypp.conf'']"
  let ?rf = "pkgmngr ctx @ [''etc'', ''zypp'', ''repos.d'', ''mkosi.repo'']"
  let ?P = "\<lambda>s. \<exists>suffix. s ?zc = Some (File (prior @ suffix))"
  show "?P t'"
  proof (rule steps_invariant[OF run[unfolded setup_zypper_def], of ?P])
    show "?P t" using prior by simp
  next
    fix m s r' s'
    assume m: "m \<in> set
        [mkdir (butlast (pkgmngr ctx @ [''etc'', ''zypp'', ''zypp.conf''])),
        mkdir (cache_dir ctx @ [''cache'', ''zypp'']),
        append_text (pkgmngr ctx @ [''etc'', ''zypp'', ''zypp.conf'']) (dedent (main_block ctx)),
        (\<lambda>t. let repofile = pkgmngr ctx @ [''etc'', ''zypp'', ''repos.d'', ''mkosi.repo''] in
              if \<not> exists_at t repofile then
                steps [mkdir (butlast repofile), write_text repofile (write_repos rs [])] t
              else (Inr (), t)),
        setup_rpm K ctx]"
      and P: "?P s" and ms: "m s = (r', s')"
    from P obtain suffix where sx: "s ?zc = Some (File (prior @ suffix))" ..
    then have nn: "s ?zc \<noteq> None" by simp
    have ne: "?zc \<noteq> ?rf" by simp
    from m consider (d) p where "m = mkdir p"
      | (a) "m = append_text ?zc (dedent (main_block ctx))"
      | (w) "m = (\<lambda>t. if \<not> exists_at t ?rf then
                steps [mkdir (butlast ?rf), write_text ?rf (write_repos rs [])] t
              else (Inr (), t))"
      | (c) "m = setup_rpm K ctx"
      unfolding Let_def set_simps insert_iff empty_iff by blast
    then show "?P s'"
    proof cases
      case d
      with ms have "mkdir p s = (r', s')" by simp
      from mkdir_keeps[OF this nn] sx show ?thesis by simp
    next
      case a
      with ms have "append_text ?zc (dedent (main_block ctx)) s = (r', s')" by simp
      from append_text_cases[OF this] sx show ?thesis
        by (auto simp: content_at_def)
    next
      case w
      with ms have "(if \<not> exists_at s ?rf then
                steps [mkdir (butlast ?rf), write_text ?rf (write_repos rs [])] s
              else (Inr (), s)) = (r', s')" by simp
      from repo_step_keeps[OF this nn] ne sx show ?thesis by simp
    next
      case c
      with ms frame[of s] sx show ?thesis by simp
    qed
  qed
qed

lemma setup_zypper_appended:
  assumes frame: "\<And>s. snd (setup_rpm K ctx s) (pkgmngr ctx @ [''etc'', ''zypp'', ''zypp.conf''])
                    = s (pkgmngr ctx @ [''etc'', ''zypp'', ''zypp.conf''])"
    and run: "setup_zypper K ctx rs t = (Inr (), t')"
  shows "t' (pkgmngr ctx @ [''etc'', ''zypp'', ''zypp.conf''])
       = Some (File (content_at t (pkgmngr ctx @ [''etc'', ''zypp'', ''zypp.conf'']) @ dedent (main_block ctx)))"
proof -
  let ?zc = "pkgmngr ctx @ [''etc'', ''zypp'', ''zypp.conf'']"
  let ?rf = "pkgmngr ctx @ [''etc'', ''zypp'', ''repos.d'', ''mkosi.repo'']"
  from run obtain s1 s2 s3 s4 where
    m1: "mkdir (pkgmngr ctx @ [''etc'', ''zypp'']) t = (Inr (), s1)"
    and m2: "mkdir (cache_dir ctx @ [''cache'', ''zypp'']) s1 = (Inr (), s2)"
    and ap: "append_text ?zc (dedent (main_block ctx)) s2 = (Inr (), s3)"
    and st: "(if \<not> exists_at s3 ?rf then
        steps [mkdir (pkgmngr ctx @ [''etc'', ''zypp'', ''repos.d'']),
               write_text ?rf (write_repos rs [])] s3
      else (Inr (), s3)) = (Inr (), s4)"
    and rpm: "setup_rpm K ctx s4 = (Inr (), t')"
    by (rule setup_zypper_success)
  from append_text_cases[OF ap]
  have nd: "s2 ?zc \<noteq> Some Dir" and s3: "s3 = s2(?zc \<mapsto> File (content_at s2 ?zc @ dedent (main_block ctx)))"
    by auto
  from mkdir_not_dir[OF m2 nd] have e2: "s2 ?zc = s1 ?zc" .
  with nd have "s1 ?zc \<noteq> Some Dir" by simp
  from mkdir_not_dir[OF m1 this] e2 have "s2 ?zc = t ?zc" by simp
  then have c: "content_at s2 ?zc = content_at t ?zc" by (simp add: content_at_def)
  from s3 have nn: "s3 ?zc \<noteq> None" by simp
  have ne: "?zc \<noteq> ?rf" by simp
  from repo_step_keeps[OF st nn] ne have "s4 ?zc = s3 ?zc" by simp
  with frame[of s4] rpm s3 c show ?thesis by simp
qed

text \<open>
  Claim C8. \<open>setup_zypper\<close> appends to \<open>zypp.conf\<close> and never overwrites it: whatever the
  outcome of the call, the content that the file had before is a prefix of its content
  after; and after a call that succeeded the content is the prior content (empty when the
  file was absent) followed by the \<open>[main]\<close> block, which sets \<open>rpm.install.excludedocs\<close> to
  \<open>yes\<close> exactly when documentation is disabled and \<open>repo.refresh.delay\<close> to 2880, the
  value of \<open>48 * 60\<close>: 48 hours in the minutes that the option counts. The collaborator
  \<open>setup_rpm\<close>, which runs last, is taken to leave \<open>zypp.conf\<close> alone.
\<close>

theorem setup_zypper_appends_main_block:
  "(\<forall>s. snd (setup_rpm K ctx s) (pkgmngr ctx @ [''etc'', ''zypp'', ''zypp.conf''])
         = s (pkgmngr ctx @ [''etc'', ''zypp'', ''zypp.conf''])) \<longrightarrow>
   (setup_zypper K ctx rs t = (r, t') \<and> t (pkgmngr ctx @ [''etc'', ''zypp'', ''zypp.conf'']) = Some (File prior)
      \<longrightarrow> (\<exists>suffix. t' (pkgmngr ctx @ [''etc'', ''zypp'', ''zypp.conf'']) = Some (File (prior @ suffix))))
   \<and> (setup_zypper K ctx rs t = (Inr (), t')
      \<longrightarrow> t' (pkgmngr ctx @ [''etc'', ''zypp'', ''zypp.conf'']) =
            Some (File (content_at t (pkgmngr ctx @ [''etc'', ''zypp'', ''zypp.conf'']) @
              ''\<newline>[main]\<newline>rpm.install.excludedocs = '' @ yes_no (\<not> with_docs (config ctx)) @
              ''\<newline>repo.refresh.delay = 2880\<newline>'')))"
proof (intro impI conjI)
  assume "\<forall>s. snd (setup_rpm K ctx s) (pkgmngr ctx @ [''etc'', ''zypp'', ''zypp.conf''])
         = s (pkgmngr ctx @ [''etc'', ''zypp'', ''zypp.conf''])"
  then have frame: "\<And>s. snd (setup_rpm K ctx s) (pkgmngr ctx @ [''etc'', ''zypp'', ''zypp.conf''])
         = s (pkgmngr ctx @ [''etc'', ''zypp'', ''zypp.conf''])" by simp
  {
    assume "setup_zypper K ctx rs t = (r, t') \<and> t (pkgmngr ctx @ [''etc'', ''zypp'', ''zypp.conf'']) = Some (File prior)"
    then have a: "setup_zypper K ctx rs t = (r, t')"
       "t (pkgmngr ctx @ [''etc'', ''zypp'', ''zypp.conf'']) = Some (File prior)" by simp_all
    from setup_zypper_prefix_kept[OF frame a(2) a(1)]
    show "\<exists>suffix. t' (pkgmngr ctx @ [''etc'', ''zypp'', ''zypp.conf'']) = Some (File (prior @ suffix))" .
  }
  {
    assume "setup_zypper K ctx rs t = (Inr (), t')"
    from setup_zypper_appended[OF frame this]
    show "t' (pkgmngr ctx @ [''etc'', ''zypp'', ''zypp.conf'']) =
            Some (File (content_at t (pkgmngr ctx @ [''etc'', ''zypp'', ''zypp.conf'']) @
              ''\<newline>[main]\<newline>rpm.install.excludedocs = '' @ yes_no (\<not> with_docs (config ctx)) @
              ''\<newline>repo.refresh.delay = 2880\<newline>''))"
      by (simp only: dedent_main_block)
  }
qed

subsection \<open>Evaluation on the example inputs\<close>

lemma base_repo_text:
  "write_repos [base_repo] [] =
     ''[base]\<newline>name=base\<newline>baseurl=http://example/repo\<newline>gpgcheck=1\<newline>enabled=1\<newline>autorefresh=1\<newline>keeppackages=1\<newline>gpgkey=http://example/key1\<newline>       http://example/key2\<newline>''"
  by code_simp

lemma setup_zypper_example:
  "fst (setup_zypper quiet example_context [base_repo] zypp_tree) = Inr ()"
  by code_simp

lemma setup_apt_example:
  "fst (setup_apt example_context [''deb http://example/ stable main''] empty_tree) = Inr ()"
  by code_simp

lemma quiet_setup_rpm_frame:
  "\<not> prefix q (pkgmngr c @ [''etc'', ''rpm'']) \<Longrightarrow> snd (setup_rpm quiet c s) q = s q"
proof -
  assume a: "\<not> prefix q (pkgmngr c @ [''etc'', ''rpm''])"
  obtain r s' where m: "mkdir (pkgmngr c @ [''etc'', ''rpm'']) s = (r, s')"
    by (cases "mkdir (pkgmngr c @ [''etc'', ''rpm'']) s")
  from mkdir_elsewhere[OF m a] m show ?thesis by (simp add: quiet_def)
qed


text \<open>
  Claim C9. For the descriptor with id \<open>base\<close>, url line \<open>baseurl=http://example/repo\<close>, the
  two key URLs and \<open>enabled\<close> true, a call of \<open>setup_zypper\<close> that succeeds on a tree without
  a repo file leaves a repo file with exactly the stanza \<open>[base]\<close>, \<open>name=base\<close>,
  \<open>baseurl=http://example/repo\<close>, \<open>gpgcheck=1\<close>, \<open>enabled=1\<close>, \<open>autorefresh=1\<close>,
  \<open>keeppackages=1\<close>, \<open>gpgkey=http://example/key1\<close> and a last line that holds the second
  URL after seven spaces, the length of \<open>gpgkey=\<close>. The cache directory is taken not to lie
  under the path of the repo file, and \<open>setup_rpm\<close> to leave the repo file alone.
\<close>

theorem setup_zypper_base_repo_file:
  assumes "setup_zypper K ctx [base_repo] t = (Inr (), t')"
    and "\<not> exists_at t (pkgmngr ctx @ [''etc'', ''zypp'', ''repos.d'', ''mkosi.repo''])"
    and "\<forall>s. snd (setup_rpm K ctx s) (pkgmngr ctx @ [''etc'', ''zypp'', ''repos.d'', ''mkosi.repo''])
              = s (pkgmngr ctx @ [''etc'', ''zypp'', ''repos.d'', ''mkosi.repo''])"
    and "\<not> prefix (pkgmngr ctx @ [''etc'', ''zypp'', ''repos.d'', ''mkosi.repo''])
              (cache_dir ctx @ [''cache'', ''zypp''])"
  shows "t' (pkgmngr ctx @ [''etc'', ''zypp'', ''repos.d'', ''mkosi.repo'']) =
     Some (File ''[base]\<newline>name=base\<newline>baseurl=http://example/repo\<newline>gpgcheck=1\<newline>enabled=1\<newline>autorefresh=1\<newline>keeppackages=1\<newline>gpgkey=http://example/key1\<newline>       http://example/key2\<newline>'')"
proof -
  let ?zc = "pkgmngr ctx @ [''etc'', ''zypp'', ''zypp.conf'']"
  let ?rf = "pkgmngr ctx @ [''etc'', ''zypp'', ''repos.d'', ''mkosi.repo'']"
  from assms(1) obtain s1 s2 s3 s4 where
    m1: "mkdir (pkgmngr ctx @ [''etc'', ''zypp'']) t = (Inr (), s1)"
    and m2: "mkdir (cache_dir ctx @ [''cache'', ''zypp'']) s1 = (Inr (), s2)"
    and ap: "append_text ?zc (dedent (main_block ctx)) s2 = (Inr (), s3)"
    and st: "(if \<not> exists_at s3 ?rf then
        steps [mkdir (pkgmngr ctx @ [''etc'', ''zypp'', ''repos.d'']),
               write_text ?rf (write_repos [base_repo] [])] s3
      else (Inr (), s3)) = (Inr (), s4)"
    and rpm: "setup_rpm K ctx s4 = (Inr (), t')"
    by (rule setup_zypper_success)
  from assms(2) have t0: "t ?rf = None" by (simp add: exists_at_def node_at_def)
  have "\<not> prefix ?rf (pkgmngr ctx @ [''etc'', ''zypp''])" by simp
  from mkdir_elsewhere[OF m1 this] t0 have "s1 ?rf = None" by simp
  with mkdir_elsewhere[OF m2 assms(4)] have "s2 ?rf = None" by simp
  moreover have "?rf \<noteq> ?zc" by simp
  ultimately have "s3 ?rf = None" using append_text_elsewhere[OF ap, of ?rf] by simp
  then have "\<not> exists_at s3 ?rf" by (simp add: exists_at_def node_at_def)
  with repo_step_success[OF st] have "s4 ?rf = Some (File (write_repos [base_repo] []))" by auto
  with assms(3) rpm have "t' ?rf = Some (File (write_repos [base_repo] []))"
    by (metis snd_conv)
  then show ?thesis by (simp only: base_repo_text)
qed

theorem setup_zypper_base_repo_file_witness:
  "fst (setup_zypper quiet example_context [base_repo] zypp_tree) = Inr ()
   \<and> \<not> exists_at zypp_tree [''work'', ''pkgmngr'', ''etc'', ''zypp'', ''repos.d'', ''mkosi.repo'']
   \<and> snd (setup_zypper quiet example_context [base_repo] zypp_tree)
        [''work'', ''pkgmngr'', ''etc'', ''zypp'', ''repos.d'', ''mkosi.repo''] =
     Some (File ''[base]\<newline>name=base\<newline>baseurl=http://example/repo\<newline>gpgcheck=1\<newline>enabled=1\<newline>autorefresh=1\<newline>keeppackages=1\<newline>gpgkey=http://example/key1\<newline>       http://example/key2\<newline>'')"
proof -
  have p: "pkgmngr example_context = [''work'', ''pkgmngr'']" "cache_dir example_context = [''work'', ''cache'']"
    by (simp_all add: example_context_def)
  have run: "setup_zypper quiet example_context [base_repo] zypp_tree
      = (Inr (), snd (setup_zypper quiet example_context [base_repo] zypp_tree))"
    using setup_zypper_example by (metis prod.collapse)
  have fresh: "\<not> exists_at zypp_tree (pkgmngr example_context @ [''etc'', ''zypp'', ''repos.d'', ''mkosi.repo''])"
    by (simp add: p zypp_tree_def empty_tree_def exists_at_def node_at_def)
  have frame: "\<forall>s. snd (setup_rpm quiet example_context s)
        (pkgmngr example_context @ [''etc'', ''zypp'', ''repos.d'', ''mkosi.repo''])
      = s (pkgmngr example_context @ [''etc'', ''zypp'', ''repos.d'', ''mkosi.repo''])"
    by (simp add: quiet_setup_rpm_frame)
  have apart: "\<not> prefix (pkgmngr example_context @ [''etc'', ''zypp'', ''repos.d'', ''mkosi.repo''])
              (cache_dir example_context @ [''cache'', ''zypp''])"
    by (simp add: p)
  from setup_zypper_base_repo_file[OF run fresh frame apart] fresh setup_zypper_example
  show ?thesis by (simp add: p)
qed

theorem setup_zypper_appends_main_block_witness:
  "fst (setup_zypper quiet example_context [base_repo] zypp_tree) = Inr ()
   \<and> zypp_tree [''work'', ''pkgmngr'', ''etc'', ''zypp'', ''zypp.conf'']
       = Some (File ''solver.onlyRequires = true\<newline>'')
   \<and> snd (setup_zypper quiet example_context [base_repo] zypp_tree)
        [''work'', ''pkgmngr'', ''etc'', ''zypp'', ''zypp.conf''] =
     Some (File ''solver.onlyRequires = true\<newline>\<newline>[main]\<newline>rpm.install.excludedocs = yes\<newline>repo.refresh.delay = 2880\<newline>'')"
proof -
  have p: "pkgmngr example_context = [''work'', ''pkgmngr'']"
    "with_docs (config example_context) = False"
    by (simp_all add: example_context_def example_config_def)
  have run: "setup_zypper quiet example_context [base_repo] zypp_tree
      = (Inr (), snd (setup_zypper quiet example_context [base_repo] zypp_tree))"
    using setup_zypper_example by (metis prod.collapse)
  have prior: "zypp_tree (pkgmngr example_context @ [''etc'', ''zypp'', ''zypp.conf''])
       = Some (File ''solver.onlyRequires = true\<newline>'')"
    by (simp add: p zypp_tree_def)
  have frame: "\<forall>s. snd (setup_rpm quiet example_context s)
        (pkgmngr example_context @ [''etc'', ''zypp'', ''zypp.conf''])
      = s (pkgmngr example_context @ [''etc'', ''zypp'', ''zypp.conf''])"
    by (simp add: quiet_setup_rpm_frame)
  from setup_zypper_appends_main_block[of quiet example_context "[base_repo]" zypp_tree "Inr ()"
      "snd (setup_zypper quiet example_context [base_repo] zypp_tree)" "''solver.onlyRequires = true\<newline>''"]
    frame run prior
  have "snd (setup_zypper quiet example_context [base_repo] zypp_tree)
        (pkgmngr example_context @ [''etc'', ''zypp'', ''zypp.conf'']) =
     Some (File (content_at zypp_tree (pkgmngr example_context @ [''etc'', ''zypp'', ''zypp.conf'']) @
              ''\<newline>[main]\<newline>rpm.install.excludedocs = '' @ yes_no (\<not> with_docs (config example_context)) @
              ''\<newline>repo.refresh.delay = 2880\<newline>''))"
    by blast
  with prior setup_zypper_example show ?thesis
    by (simp add: p content_at_def yes_no_def)
qed

theorem setup_twice_keeps_configuration_witness:
  "fst (setup_apt example_context [''deb http://example/ stable main''] empty_tree) = Inr ()
   \<and> setup_apt example_context [''deb http://example/ stable main'']
        (snd (setup_apt example_context [''deb http://example/ stable main''] empty_tree))
      = (Inr (), snd (setup_apt example_context [''deb http://example/ stable main''] empty_tree))
   \<and> fst (setup_zypper quiet example_context [base_repo] zypp_tree) = Inr ()
   \<and> snd (setup_zypper quiet example_context [base_repo]
            (snd (setup_zypper quiet example_context [base_repo] zypp_tree)))
        [''work'', ''pkgmngr'', ''etc'', ''zypp'', ''repos.d'', ''mkosi.repo'']
      = snd (setup_zypper quiet example_context [base_repo] zypp_tree)
        [''work'', ''pkgmngr'', ''etc'', ''zypp'', ''repos.d'', ''mkosi.repo'']
   \<and> snd (setup_zypper quiet example_context [base_repo] zypp_tree)
        [''work'', ''pkgmngr'', ''etc'', ''zypp'', ''repos.d'', ''mkosi.repo''] \<noteq> None"
proof -
  have p: "pkgmngr example_context = [''work'', ''pkgmngr'']"
    by (simp add: example_context_def)
  have apt: "setup_apt example_context [''deb http://example/ stable main''] empty_tree
      = (Inr (), snd (setup_apt example_context [''deb http://example/ stable main''] empty_tree))"
    using setup_apt_example by (metis prod.collapse)
  have zyp: "setup_zypper quiet example_context [base_repo] zypp_tree
      = (Inr (), snd (setup_zypper quiet example_context [base_repo] zypp_tree))"
    using setup_zypper_example by (metis prod.collapse)
  have frame: "\<forall>s. snd (setup_rpm quiet example_context s)
        (pkgmngr example_context @ [''etc'', ''zypp'', ''repos.d'', ''mkosi.repo''])
      = s (pkgmngr example_context @ [''etc'', ''zypp'', ''repos.d'', ''mkosi.repo''])"
    by (simp add: quiet_setup_rpm_frame)
  from setup_twice_keeps_configuration[of example_context "[''deb http://example/ stable main'']" empty_tree
      "snd (setup_apt example_context [''deb http://example/ stable main''] empty_tree)"
      quiet "[base_repo]" zypp_tree "snd (setup_zypper quiet example_context [base_repo] zypp_tree)"]
    apt zyp frame setup_apt_example setup_zypper_example
  show ?thesis by (simp add: p)
qed

section \<open>Properties of \<open>invoke\<close>\<close>

lemma sort_packages_set: "set names = set names' \<Longrightarrow> sort_packages names = sort_packages names'"
  by (metis sort_packages_def sorted_list_of_set_sort_remdups)

lemma sort_packages_sorted: "sorted (sort_packages names) \<and> distinct (sort_packages names)
    \<and> set (sort_packages names) = set names"
  by (simp add: sort_packages_def)

lemma with_source_mounts_run:
  assumes "enter_source_mounts K cfg (files w) = (Inr sources, t1)"
    and "exec K (args sources t1) t1 = (status, t2)"
  shows "with_source_mounts K cfg (\<lambda>sources w. run K (args sources (files w)) w) w =
      (if status = 0 then Inr () else Inl (CalledProcessError status),
       \<lparr>files = exit_source_mounts K cfg t2, calls = calls w @ [Run (args sources t1)]\<rparr>)"
  using assms by (simp add: with_source_mounts_def run_def)

lemma with_source_mounts_fail:
  assumes "enter_source_mounts K cfg (files w) = (Inl e, t1)"
  shows "with_source_mounts K cfg body w = (Inl e, w\<lparr>files := t1\<rparr>)"
  using assms by (simp add: with_source_mounts_def)

text \<open>
  What \<open>invoke_zypper\<close> does once the source mounts are in place: one external process is
  run, and the fixup is called when, and only when, that process returned the status zero.
\<close>

lemma invoke_zypper_run_logged:
  assumes enter: "enter_source_mounts K (config ctx) (files w) = (Inr sources, t1)"
  shows "\<exists>args status t2.
          cmdline args = zypper_cmd ctx @ [verb] @ options @ sort_packages names
          \<and> exec K args t1 = (status, t2)
          \<and> (status \<noteq> 0 \<longrightarrow>
               invoke_zypper K ctx verb names options apivfs w =
                 (Inl (CalledProcessError status),
                  \<lparr>files = exit_source_mounts K (config ctx) t2, calls = calls w @ [Run args]\<rparr>))
          \<and> (status = 0 \<longrightarrow>
               invoke_zypper K ctx verb names options apivfs w =
                 (fst (fixup_rpmdb_location K ctx (exit_source_mounts K (config ctx) t2)),
                  \<lparr>files = snd (fixup_rpmdb_location K ctx (exit_source_mounts K (config ctx) t2)),
                   calls = calls w @ [Run args, Fixup_rpmdb_location]\<rparr>))"
proof -
  let ?args = "\<lambda>sources (t::tree).
     \<lparr>cmdline = zypper_cmd ctx @ [verb] @ options @ sort_packages names,
      stdout = None,
      sandbox_args =
        sandbox ctx True
          ([''--bind'', path_str (root ctx), path_str (root ctx)] @
           finalize_package_manager_mounts K ctx @ sources @ [''--chdir'', ''/work/src'']) @
        (if apivfs then apivfs_cmd K (root ctx) else []),
      env = environment (config ctx)\<rparr>"
  obtain status t2 where ex: "exec K (?args sources t1) t1 = (status, t2)"
    by (cases "exec K (?args sources t1) t1")
  note w = with_source_mounts_run[of K "config ctx" w sources t1 ?args status t2, OF enter ex]
  have f: "status \<noteq> 0 \<Longrightarrow> invoke_zypper K ctx verb names options apivfs w =
      (Inl (CalledProcessError status),
       \<lparr>files = exit_source_mounts K (config ctx) t2, calls = calls w @ [Run (?args sources t1)]\<rparr>)"
    unfolding invoke_zypper_def using w by simp
  have s: "status = 0 \<Longrightarrow> invoke_zypper K ctx verb names options apivfs w =
      (fst (fixup_rpmdb_location K ctx (exit_source_mounts K (config ctx) t2)),
       \<lparr>files = snd (fixup_rpmdb_location K ctx (exit_source_mounts K (config ctx) t2)),
        calls = calls w @ [Run (?args sources t1), Fixup_rpmdb_location]\<rparr>)"
    unfolding invoke_zypper_def using w
    by (simp add: split_beta split: sum.splits)
  from ex f s
  show "\<exists>args status t2.
          cmdline args = zypper_cmd ctx @ [verb] @ options @ sort_packages names
          \<and> exec K args t1 = (status, t2)
          \<and> (status \<noteq> 0 \<longrightarrow>
               invoke_zypper K ctx verb names options apivfs w =
                 (Inl (CalledProcessError status),
                  \<lparr>files = exit_source_mounts K (config ctx) t2, calls = calls w @ [Run args]\<rparr>))
          \<and> (status = 0 \<longrightarrow>
               invoke_zypper K ctx verb names options apivfs w =
                 (fst (fixup_rpmdb_location K ctx (exit_source_mounts K (config ctx) t2)),
                  \<lparr>files = snd (fixup_rpmdb_location K ctx (exit_source_mounts K (config ctx) t2)),
                   calls = calls w @ [Run args, Fixup_rpmdb_location]\<rparr>))"
    by (intro exI[of _ "?args sources t1"] exI[of _ status] exI[of _ t2]) simp
qed

text \<open>
  Claim C10. When the external zypper process that \<open>invoke_zypper\<close> starts exits with a
  status other than zero, \<open>run\<close> raises, \<open>invoke_zypper\<close> ends with that exception, and the
  log of calls holds the run and no call of \<open>fixup_rpmdb_location\<close>: the file tree is the
  one the process left, after the exit of the source mounts. The fixup is called, after the
  run, when the status is zero. When the source mounts themselves fail, neither is called.
\<close>

theorem invoke_zypper_fixup_only_after_success:
  "(\<forall>e t1. enter_source_mounts K (config ctx) (files w) = (Inl e, t1) \<longrightarrow>
       invoke_zypper K ctx verb names options apivfs w = (Inl e, w\<lparr>files := t1\<rparr>))
   \<and> (\<forall>sources t1. enter_source_mounts K (config ctx) (files w) = (Inr sources, t1) \<longrightarrow>
       (\<exists>args status t2.
          cmdline args = zypper_cmd ctx @ [verb] @ options @ sort_packages names
          \<and> exec K args t1 = (status, t2)
          \<and> (status \<noteq> 0 \<longrightarrow>
               invoke_zypper K ctx verb names options apivfs w =
                 (Inl (CalledProcessError status),
                  \<lparr>files = exit_source_mounts K (config ctx) t2, calls = calls w @ [Run args]\<rparr>))
          \<and> (status = 0 \<longrightarrow>
               invoke_zypper K ctx verb names options apivfs w =
                 (fst (fixup_rpmdb_location K ctx (exit_source_mounts K (config ctx) t2)),
                  \<lparr>files = snd (fixup_rpmdb_location K ctx (exit_source_mounts K (config ctx) t2)),
                   calls = calls w @ [Run args, Fixup_rpmdb_location]\<rparr>))))"
proof (intro conjI allI impI)
  fix e t1 assume "enter_source_mounts K (config ctx) (files w) = (Inl e, t1)"
  from with_source_mounts_fail[OF this]
  show "invoke_zypper K ctx verb names options apivfs w = (Inl e, w\<lparr>files := t1\<rparr>)"
    by (simp add: invoke_zypper_def)
next
  fix sources t1 assume "enter_source_mounts K (config ctx) (files w) = (Inr sources, t1)"
  then show "\<exists>args status t2.
          cmdline args = zypper_cmd ctx @ [verb] @ options @ sort_packages names
          \<and> exec K args t1 = (status, t2)
          \<and> (status \<noteq> 0 \<longrightarrow>
               invoke_zypper K ctx verb names options apivfs w =
                 (Inl (CalledProcessError status),
                  \<lparr>files = exit_source_mounts K (config ctx) t2, calls = calls w @ [Run args]\<rparr>))
          \<and> (status = 0 \<longrightarrow>
               invoke_zypper K ctx verb names options apivfs w =
                 (fst (fixup_rpmdb_location K ctx (exit_source_mounts K (config ctx) t2)),
                  \<lparr>files = snd (fixup_rpmdb_location K ctx (exit_source_mounts K (config ctx) t2)),
                   calls = calls w @ [Run args, Fixup_rpmdb_location]\<rparr>))"
    by (rule invoke_zypper_run_logged)
qed


theorem invoke_zypper_fixup_only_after_success_witness:
  "fst (invoke_zypper failing example_context ''install'' [''vim''] [] True empty_world)
      = Inl (CalledProcessError 1)
   \<and> Fixup_rpmdb_location \<notin> set (calls (snd (invoke_zypper failing example_context ''install'' [''vim''] [] True empty_world)))
   \<and> length (calls (snd (invoke_zypper failing example_context ''install'' [''vim''] [] True empty_world))) = 1
   \<and> fst (invoke_zypper quiet example_context ''install'' [''vim''] [] True empty_world) = Inr ()
   \<and> last (calls (snd (invoke_zypper quiet example_context ''install'' [''vim''] [] True empty_world)))
      = Fixup_rpmdb_location"
proof -
  have ef: "enter_source_mounts failing (config example_context) (files empty_world)
      = (Inr [''--dir'', ''/work/src''], empty_tree)"
    by (simp add: failing_def quiet_def empty_world_def)
  have eq: "enter_source_mounts quiet (config example_context) (files empty_world)
      = (Inr [''--dir'', ''/work/src''], empty_tree)"
    by (simp add: quiet_def empty_world_def)
  from invoke_zypper_fixup_only_after_success[of failing example_context empty_world "''install''" "[''vim'']" "[]" True] ef
  obtain args status t2 where
    f1: "exec failing args empty_tree = (status, t2)"
    and f2: "status \<noteq> 0 \<longrightarrow>
               invoke_zypper failing example_context ''install'' [''vim''] [] True empty_world =
                 (Inl (CalledProcessError status),
                  \<lparr>files = exit_source_mounts failing (config example_context) t2,
                   calls = calls empty_world @ [Run args]\<rparr>)"
    by blast
  from f1 have "status = 1" by (simp add: failing_def)
  with f2 have fail: "invoke_zypper failing example_context ''install'' [''vim''] [] True empty_world =
                 (Inl (CalledProcessError 1),
                  \<lparr>files = exit_source_mounts failing (config example_context) t2,
                   calls = calls empty_world @ [Run args]\<rparr>)"
    by simp
  from invoke_zypper_fixup_only_after_success[of quiet example_context empty_world "''install''" "[''vim'']" "[]" True] eq
  obtain args' status' t2' where
    q1: "exec quiet args' empty_tree = (status', t2')"
    and q2: "status' = 0 \<longrightarrow>
               invoke_zypper quiet example_context ''install'' [''vim''] [] True empty_world =
                 (fst (fixup_rpmdb_location quiet example_context (exit_source_mounts quiet (config example_context) t2')),
                  \<lparr>files = snd (fixup_rpmdb_location quiet example_context (exit_source_mounts quiet (config example_context) t2')),
                   calls = calls empty_world @ [Run args', Fixup_rpmdb_location]\<rparr>)"
    by blast
  from q1 have "status' = 0" by (simp add: quiet_def)
  with q2 have ok: "invoke_zypper quiet example_context ''install'' [''vim''] [] True empty_world =
                 (fst (fixup_rpmdb_location quiet example_context (exit_source_mounts quiet (config example_context) t2')),
                  \<lparr>files = snd (fixup_rpmdb_location quiet example_context (exit_source_mounts quiet (config example_context) t2')),
                   calls = calls empty_world @ [Run args', Fixup_rpmdb_location]\<rparr>)"
    by simp
  show ?thesis
    unfolding fail ok by (simp add: empty_world_def quiet_def)
qed

text \<open>
  Claim C6. For two lists of package names with the same set of names (so for every
  permutation of a list, and for every list with repeated names), \<open>invoke_apt\<close> and
  \<open>invoke_zypper\<close> behave the same, and the command line that they pass to \<open>run\<close> ends
  with the names without repetition and in lexicographic order.
\<close>

theorem invoke_packages_sorted:
  assumes "set names = set names'"
  shows "sort_packages names = sort_packages names'
     \<and> sorted (sort_packages names) \<and> distinct (sort_packages names)
     \<and> set (sort_packages names) = set names
     \<and> invoke_apt K ctx command operation names apivfs mounts w
         = invoke_apt K ctx command operation names' apivfs mounts w
     \<and> invoke_zypper K ctx verb names options apivfs w
         = invoke_zypper K ctx verb names' options apivfs w
     \<and> (\<forall>sources t1. enter_source_mounts K (config ctx) (files w) = (Inr sources, t1) \<longrightarrow>
          (\<exists>args. calls (snd (invoke_apt K ctx command operation names apivfs mounts w))
                     = calls w @ [Run args]
                 \<and> cmdline args = apt_cmd ctx command t1 @ [operation] @ sort_packages names)
          \<and> (\<exists>args. take (Suc (length (calls w)))
                       (calls (snd (invoke_zypper K ctx verb names options apivfs w)))
                     = calls w @ [Run args]
                 \<and> cmdline args = zypper_cmd ctx @ [verb] @ options @ sort_packages names))"
proof (intro conjI allI impI)
  from sort_packages_set[OF assms] show eq: "sort_packages names = sort_packages names'" .
  from sort_packages_sorted[of names]
  show "sorted (sort_packages names)" "distinct (sort_packages names)"
    "set (sort_packages names) = set names" by simp_all
  show "invoke_apt K ctx command operation names apivfs mounts w
         = invoke_apt K ctx command operation names' apivfs mounts w"
    by (simp add: invoke_apt_def eq)
  show "invoke_zypper K ctx verb names options apivfs w
         = invoke_zypper K ctx verb names' options apivfs w"
    by (simp add: invoke_zypper_def eq)
next
  fix sources t1 assume enter: "enter_source_mounts K (config ctx) (files w) = (Inr sources, t1)"
  let ?args = "\<lambda>sources (t::tree).
     \<lparr>cmdline = apt_cmd ctx command t @ [operation] @ sort_packages names,
      stdout = None,
      sandbox_args =
        sandbox ctx True
          ([''--bind'', path_str (root ctx), path_str (root ctx)] @
           finalize_package_manager_mounts K ctx @ sources @ mounts @ [''--chdir'', ''/work/src'']) @
        (if apivfs then apivfs_cmd K (root ctx) else []),
      env = environment (config ctx)\<rparr>"
  obtain status t2 where ex: "exec K (?args sources t1) t1 = (status, t2)"
    by (cases "exec K (?args sources t1) t1")
  from with_source_mounts_run[of K "config ctx" w sources t1 ?args status t2, OF enter ex]
  have "calls (snd (invoke_apt K ctx command operation names apivfs mounts w))
      = calls w @ [Run (?args sources t1)]"
    by (simp add: invoke_apt_def)
  then show "\<exists>args. calls (snd (invoke_apt K ctx command operation names apivfs mounts w))
                     = calls w @ [Run args]
                 \<and> cmdline args = apt_cmd ctx command t1 @ [operation] @ sort_packages names"
    by (intro exI[of _ "?args sources t1"]) simp
  from invoke_zypper_run_logged[OF enter, of verb options names apivfs]
  obtain zargs zstatus z2 where
    z: "cmdline zargs = zypper_cmd ctx @ [verb] @ options @ sort_packages names"
      "zstatus \<noteq> 0 \<longrightarrow>
               invoke_zypper K ctx verb names options apivfs w =
                 (Inl (CalledProcessError zstatus),
                  \<lparr>files = exit_source_mounts K (config ctx) z2, calls = calls w @ [Run zargs]\<rparr>)"
      "zstatus = 0 \<longrightarrow>
               invoke_zypper K ctx verb names options apivfs w =
                 (fst (fixup_rpmdb_location K ctx (exit_source_mounts K (config ctx) z2)),
                  \<lparr>files = snd (fixup_rpmdb_location K ctx (exit_source_mounts K (config ctx) z2)),
                   calls = calls w @ [Run zargs, Fixup_rpmdb_location]\<rparr>)"
    by blast
  have "take (Suc (length (calls w)))
                       (calls (snd (invoke_zypper K ctx verb names options apivfs w)))
                     = calls w @ [Run zargs]"
    using z(2,3) by (cases "zstatus = 0") simp_all
  with z(1)
  show "\<exists>args. take (Suc (length (calls w)))
                       (calls (snd (invoke_zypper K ctx verb names options apivfs w)))
                     = calls w @ [Run args]
                 \<and> cmdline args = zypper_cmd ctx @ [verb] @ options @ sort_packages names"
    by blast
qed


theorem invoke_packages_sorted_witness:
  "set [''vim'', ''bash'', ''vim''] = set [''bash'', ''vim'']
   \<and> sort_packages [''vim'', ''bash'', ''vim''] = [''bash'', ''vim'']
   \<and> invoke_apt quiet example_context ''apt-get'' ''install'' [''vim'', ''bash'', ''vim''] True [] empty_world
      = invoke_apt quiet example_context ''apt-get'' ''install'' [''bash'', ''vim''] True [] empty_world
   \<and> invoke_zypper quiet example_context ''install'' [''vim'', ''bash'', ''vim''] [] True empty_world
      = invoke_zypper quiet example_context ''install'' [''bash'', ''vim''] [] True empty_world"
proof -
  have a: "set [''vim'', ''bash'', ''vim''] = set [''bash'', ''vim'']" by auto
  have b: "sort_packages [''bash'', ''vim''] = [''bash'', ''vim'']" by code_simp
  from invoke_packages_sorted[OF a, of quiet example_context "''apt-get''" "''install''" True "[]" empty_world "''install''" "[]"] a b
  show ?thesis by simp
qed

section \<open>The repo file of \<open>setup_zypper\<close>\<close>

lemma write_gpgkeys_acc: "write_gpgkeys i urls f = f @ write_gpgkeys i urls []"
proof (induction urls arbitrary: i f)
  case Nil
  then show ?case by simp
next
  case (Cons u urls)
  let ?p = "if i = 0 then ''gpgkey='' else replicate (length ''gpgkey='') CHR '' ''"
  have "write_gpgkeys i (u # urls) f = write_gpgkeys (Suc i) urls ((f @ ?p) @ u @ ''\<newline>'')"
    by simp
  also have "\<dots> = ((f @ ?p) @ u @ ''\<newline>'') @ write_gpgkeys (Suc i) urls []"
    by (rule Cons.IH)
  finally have 1: "write_gpgkeys i (u # urls) f = f @ (?p @ u @ ''\<newline>'') @ write_gpgkeys (Suc i) urls []"
    by simp
  have "write_gpgkeys i (u # urls) [] = write_gpgkeys (Suc i) urls (?p @ u @ ''\<newline>'')"
    by simp
  also have "\<dots> = (?p @ u @ ''\<newline>'') @ write_gpgkeys (Suc i) urls []"
    by (rule Cons.IH)
  finally show ?case using 1 by simp
qed

lemma write_gpgkeys_continued:
  "0 < i \<Longrightarrow> write_gpgkeys i urls [] =
     concat (map (\<lambda>l. l @ ''\<newline>'') (map (\<lambda>v. replicate (length ''gpgkey='') CHR '' '' @ v) urls))"
proof (induction urls arbitrary: i)
  case Nil
  then show ?case by simp
next
  case (Cons u urls)
  from Cons.prems have "write_gpgkeys i (u # urls) [] =
      write_gpgkeys (Suc i) urls (replicate (length ''gpgkey='') CHR '' '' @ u @ ''\<newline>'')"
    by simp
  also have "\<dots> = (replicate (length ''gpgkey='') CHR '' '' @ u @ ''\<newline>'') @ write_gpgkeys (Suc i) urls []"
    by (rule write_gpgkeys_acc)
  finally show ?case using Cons.IH[of "Suc i"] by simp
qed

lemma write_gpgkeys_lines:
  "write_gpgkeys 0 urls [] = concat (map (\<lambda>l. l @ ''\<newline>'') (gpgkey_lines urls))"
proof (cases urls)
  case Nil
  then show ?thesis by (simp add: gpgkey_lines_def)
next
  case (Cons u us)
  have "write_gpgkeys 0 (u # us) [] = write_gpgkeys (Suc 0) us (''gpgkey='' @ u @ ''\<newline>'')"
    by simp
  also have "\<dots> = (''gpgkey='' @ u @ ''\<newline>'') @ write_gpgkeys (Suc 0) us []"
    by (rule write_gpgkeys_acc)
  finally show ?thesis
    using write_gpgkeys_continued[of "Suc 0" us] Cons by (simp add: gpgkey_lines_def comp_def)
qed

lemma write_repos_acc: "write_repos rs f = f @ write_repos rs []"
proof (induction rs arbitrary: f)
  case Nil
  then show ?case by simp
next
  case (Cons r rs)
  have "write_repos (r # rs) f = write_repos rs (write_gpgkeys 0 (gpgurls r) (f @ dedent (repo_stanza r)))"
    by simp
  also have "\<dots> = write_gpgkeys 0 (gpgurls r) (f @ dedent (repo_stanza r)) @ write_repos rs []"
    by (rule Cons.IH)
  also have "write_gpgkeys 0 (gpgurls r) (f @ dedent (repo_stanza r))
      = f @ write_gpgkeys 0 (gpgurls r) (dedent (repo_stanza r))"
    by (metis append.assoc write_gpgkeys_acc)
  finally have 1: "write_repos (r # rs) f
      = f @ write_gpgkeys 0 (gpgurls r) (dedent (repo_stanza r)) @ write_repos rs []" by simp
  have "write_repos (r # rs) [] = write_repos rs (write_gpgkeys 0 (gpgurls r) (dedent (repo_stanza r)))"
    by simp
  also have "\<dots> = write_gpgkeys 0 (gpgurls r) (dedent (repo_stanza r)) @ write_repos rs []"
    by (rule Cons.IH)
  finally show ?case using 1 by simp
qed

lemma write_repos_append: "write_repos (xs @ ys) f = write_repos ys (write_repos xs f)"
  by (induction xs arbitrary: f) simp_all

lemma write_repos_blocks:
  "write_repos (before @ repo # after) [] =
     write_repos before [] @ write_repos [repo] [] @ write_repos after []"
proof -
  have "write_repos (before @ repo # after) [] = write_repos (repo # after) (write_repos before [])"
    by (rule write_repos_append)
  also have "\<dots> = write_repos before [] @ write_repos ([repo] @ after) []"
    using write_repos_acc[of "repo # after" "write_repos before []"] by simp
  also have "write_repos ([repo] @ after) [] = write_repos after (write_repos [repo] [])"
    by (rule write_repos_append)
  also have "\<dots> = write_repos [repo] [] @ write_repos after []"
    by (rule write_repos_acc)
  finally show ?thesis .
qed

lemma write_repos_single:
  "write_repos [repo] [] = dedent (repo_stanza repo) @ concat (map (\<lambda>l. l @ ''\<newline>'') (gpgkey_lines (gpgurls repo)))"
  using write_gpgkeys_acc[of 0 "gpgurls repo" "dedent (repo_stanza repo)"]
  by (simp add: write_gpgkeys_lines)


lemma split_lines_nonempty: "split_lines xs \<noteq> []"
  by (induction xs) (auto split: list.splits)

lemma split_lines_append:
  "split_lines (xs @ CHR ''\<newline>'' # ys) = split_lines xs @ split_lines ys"
proof (induction xs)
  case Nil
  then show ?case by simp
next
  case (Cons c xs)
  then show ?case
    using split_lines_nonempty[of xs] by (cases "split_lines xs") auto
qed

lemma split_lines_no_newline: "CHR ''\<newline>'' \<notin> set xs \<Longrightarrow> split_lines xs = [xs]"
  by (induction xs) auto

lemma split_lines_unlines:
  "\<forall>l\<in>set ls. CHR ''\<newline>'' \<notin> set l \<Longrightarrow>
   split_lines (concat (map (\<lambda>l. l @ ''\<newline>'') ls)) = ls @ [[]]"
proof (induction ls)
  case Nil
  then show ?case by simp
next
  case (Cons l ls)
  have "split_lines (concat (map (\<lambda>l. l @ ''\<newline>'') (l # ls)))
      = split_lines (l @ CHR ''\<newline>'' # concat (map (\<lambda>l. l @ ''\<newline>'') ls))"
    by simp
  also have "\<dots> = split_lines l @ split_lines (concat (map (\<lambda>l. l @ ''\<newline>'') ls))"
    by (rule split_lines_append)
  finally show ?case using Cons split_lines_no_newline[of l] by simp
qed

lemma join_lines_snoc_empty: "ls \<noteq> [] \<Longrightarrow> join_lines (ls @ [[]]) = join_lines ls @ ''\<newline>''"
proof (induction ls)
  case Nil
  then show ?case by simp
next
  case (Cons l ls)
  then show ?case by (cases ls) simp_all
qed

lemma strip_margin_Nil: "strip_margin m [] = []"
  by (simp add: strip_margin_def)

lemma dedent_shape:
  "\<exists>m. dedent text =
     join_lines (map (strip_margin m) (map (\<lambda>l. if list_all is_blank l then [] else l) (split_lines text)))"
  unfolding dedent_def Let_def by (rule exI) (rule refl)

lemma blank_no_newline: "list_all is_blank sp \<Longrightarrow> CHR ''\<newline>'' \<notin> set sp"
  by (induction sp) (auto simp: is_blank_def)

lemma split_lines_trailing:
  "list_all is_blank sp \<Longrightarrow> split_lines (x @ CHR ''\<newline>'' # sp) = split_lines x @ [sp]"
  using split_lines_no_newline[OF blank_no_newline, of sp]
  by (simp only: split_lines_append)

lemma blanked_trailing:
  "list_all is_blank sp \<Longrightarrow>
   map (strip_margin m) (map (\<lambda>l. if list_all is_blank l then [] else l) (ls @ [sp]))
      = map (strip_margin m) (map (\<lambda>l. if list_all is_blank l then [] else l) ls) @ [[]]"
  by (simp add: strip_margin_Nil)

lemma dedent_trailing_blanks:
  assumes "list_all is_blank sp"
  shows "\<exists>stanza. dedent (x @ CHR ''\<newline>'' # sp) = stanza @ ''\<newline>''"
proof -
  from dedent_shape[of "x @ CHR ''\<newline>'' # sp"] obtain m where
    "dedent (x @ CHR ''\<newline>'' # sp) =
        join_lines (map (strip_margin m)
          (map (\<lambda>l. if list_all is_blank l then [] else l) (split_lines (x @ CHR ''\<newline>'' # sp))))" ..
  then have "dedent (x @ CHR ''\<newline>'' # sp) =
      join_lines (map (strip_margin m)
          (map (\<lambda>l. if list_all is_blank l then [] else l) (split_lines x)) @ [[]])"
    by (simp only: split_lines_trailing[OF assms] blanked_trailing[OF assms])
  also have "\<dots> = join_lines (map (strip_margin m)
          (map (\<lambda>l. if list_all is_blank l then [] else l) (split_lines x))) @ ''\<newline>''"
    by (rule join_lines_snoc_empty) (simp add: split_lines_nonempty)
  finally show ?thesis by (rule exI)
qed

lemma repo_stanza_ends: "\<exists>stanza. dedent (repo_stanza repo) = stanza @ ''\<newline>''"
proof -
  have "repo_stanza repo =
     (''                        ['' @ id_repo repo @
     '']\<newline>                        name='' @ id_repo repo @
     ''\<newline>                        '' @ url repo @
     ''\<newline>                        gpgcheck=1\<newline>                        enabled='' @
     str_int_bool (enabled repo) @
     ''\<newline>                        autorefresh=1\<newline>                        keeppackages=1'')
     @ CHR ''\<newline>'' # ''                        ''"
    by (simp add: repo_stanza_def)
  then have e: "dedent (repo_stanza repo) = dedent
     ((''                        ['' @ id_repo repo @
     '']\<newline>                        name='' @ id_repo repo @
     ''\<newline>                        '' @ url repo @
     ''\<newline>                        gpgcheck=1\<newline>                        enabled='' @
     str_int_bool (enabled repo) @
     ''\<newline>                        autorefresh=1\<newline>                        keeppackages=1'')
     @ CHR ''\<newline>'' # ''                        '')"
    by (rule arg_cong)
  have b: "list_all is_blank ''                        ''"
    by (simp add: is_blank_def)
  show ?thesis
    by (subst e) (rule dedent_trailing_blanks[OF b])
qed

lemma gpgkey_lines_no_newline:
  "\<forall>v\<in>set urls. CHR ''\<newline>'' \<notin> set v \<Longrightarrow> \<forall>l\<in>set (gpgkey_lines urls). CHR ''\<newline>'' \<notin> set l"
  by (cases urls) (auto simp: gpgkey_lines_def)

lemma gpgkey_lines_nth:
  "i < length urls \<Longrightarrow>
   gpgkey_lines urls ! i =
     (if i = 0 then ''gpgkey='' else replicate (length ''gpgkey='') CHR '' '') @ urls ! i"
  by (cases urls; cases i) (simp_all add: gpgkey_lines_def)

lemma gpgkey_lines_length: "length (gpgkey_lines urls) = length urls"
  by (cases urls) (simp_all add: gpgkey_lines_def)

text \<open>
  When no URL holds a newline character, the lines that the loop writes are the lines of
  the written text.
\<close>

lemma gpgkey_text_lines:
  "\<forall>v\<in>set urls. CHR ''\<newline>'' \<notin> set v \<Longrightarrow>
   split_lines (concat (map (\<lambda>l. l @ ''\<newline>'') (gpgkey_lines urls))) = gpgkey_lines urls @ [[]]"
  by (rule split_lines_unlines) (rule gpgkey_lines_no_newline)

text \<open>
  What \<open>setup_zypper\<close> leaves in the repo file: on a tree without the file, a call that
  succeeds writes what the loop over the descriptors wrote.
\<close>

lemma setup_zypper_writes_repo_file:
  assumes run: "setup_zypper K ctx rs t = (Inr (), t')"
    and fresh: "\<not> exists_at t (pkgmngr ctx @ [''etc'', ''zypp'', ''repos.d'', ''mkosi.repo''])"
    and frame: "\<forall>s. snd (setup_rpm K ctx s) (pkgmngr ctx @ [''etc'', ''zypp'', ''repos.d'', ''mkosi.repo''])
              = s (pkgmngr ctx @ [''etc'', ''zypp'', ''repos.d'', ''mkosi.repo''])"
    and apart: "\<not> prefix (pkgmngr ctx @ [''etc'', ''zypp'', ''repos.d'', ''mkosi.repo''])
              (cache_dir ctx @ [''cache'', ''zypp''])"
  shows "t' (pkgmngr ctx @ [''etc'', ''zypp'', ''repos.d'', ''mkosi.repo''])
       = Some (File (write_repos rs []))"
proof -
  let ?zc = "pkgmngr ctx @ [''etc'', ''zypp'', ''zypp.conf'']"
  let ?rf = "pkgmngr ctx @ [''etc'', ''zypp'', ''repos.d'', ''mkosi.repo'']"
  from run obtain s1 s2 s3 s4 where
    m1: "mkdir (pkgmngr ctx @ [''etc'', ''zypp'']) t = (Inr (), s1)"
    and m2: "mkdir (cache_dir ctx @ [''cache'', ''zypp'']) s1 = (Inr (), s2)"
    and ap: "append_text ?zc (dedent (main_block ctx)) s2 = (Inr (), s3)"
    and st: "(if \<not> exists_at s3 ?rf then
        steps [mkdir (pkgmngr ctx @ [''etc'', ''zypp'', ''repos.d'']),
               write_text ?rf (write_repos rs [])] s3
      else (Inr (), s3)) = (Inr (), s4)"
    and rpm: "setup_rpm K ctx s4 = (Inr (), t')"
    by (rule setup_zypper_success)
  from fresh have t0: "t ?rf = None" by (simp add: exists_at_def node_at_def)
  have "\<not> prefix ?rf (pkgmngr ctx @ [''etc'', ''zypp''])" by simp
  from mkdir_elsewhere[OF m1 this] t0 have "s1 ?rf = None" by simp
  with mkdir_elsewhere[OF m2 apart] have "s2 ?rf = None" by simp
  moreover have "?rf \<noteq> ?zc" by simp
  ultimately have "s3 ?rf = None" using append_text_elsewhere[OF ap, of ?rf] by simp
  then have "\<not> exists_at s3 ?rf" by (simp add: exists_at_def node_at_def)
  with repo_step_success[OF st] have "s4 ?rf = Some (File (write_repos rs []))" by auto
  with frame rpm show ?thesis by (metis snd_conv)
qed

text \<open>
  Claim C3. Take any descriptor of the list passed to \<open>setup_zypper\<close> that has N signing-key
  URLs, N at least 1. After a call that succeeds on a tree without a repo file, the repo
  file holds, after the blocks of the descriptors before it and before the blocks of those
  after it, the block of this descriptor: its dedented stanza, which ends with a newline,
  followed by exactly N lines, each ended by a newline. Line 1 is \<open>gpgkey=\<close> and the first
  URL, and each of the lines 2 to N is the URL, and nothing else, after as many spaces as
  \<open>gpgkey=\<close> has characters. (When the repo file exists already, \<open>setup_zypper\<close> writes none
  of this.) The cache directory is taken not to lie under the path of the repo file, and
  \<open>setup_rpm\<close> to leave the repo file alone.
\<close>

theorem setup_zypper_gpgkey_lines:
  assumes "setup_zypper K ctx (before @ repo # after) t = (Inr (), t')"
    and "\<not> exists_at t (pkgmngr ctx @ [''etc'', ''zypp'', ''repos.d'', ''mkosi.repo''])"
    and "\<forall>s. snd (setup_rpm K ctx s) (pkgmngr ctx @ [''etc'', ''zypp'', ''repos.d'', ''mkosi.repo''])
              = s (pkgmngr ctx @ [''etc'', ''zypp'', ''repos.d'', ''mkosi.repo''])"
    and "\<not> prefix (pkgmngr ctx @ [''etc'', ''zypp'', ''repos.d'', ''mkosi.repo''])
              (cache_dir ctx @ [''cache'', ''zypp''])"
    and "gpgurls repo \<noteq> []"
  shows "(\<exists>stanza. dedent (repo_stanza repo) = stanza @ ''\<newline>''
          \<and> t' (pkgmngr ctx @ [''etc'', ''zypp'', ''repos.d'', ''mkosi.repo'']) =
              Some (File (write_repos before [] @
                          stanza @ ''\<newline>'' @
                          concat (map (\<lambda>l. l @ ''\<newline>'') (gpgkey_lines (gpgurls repo))) @
                          write_repos after [])))
     \<and> length (gpgkey_lines (gpgurls repo)) = length (gpgurls repo)
     \<and> gpgkey_lines (gpgurls repo) ! 0 = ''gpgkey='' @ gpgurls repo ! 0
     \<and> (\<forall>i. 0 < i \<and> i < length (gpgurls repo) \<longrightarrow>
          gpgkey_lines (gpgurls repo) ! i =
            replicate (length ''gpgkey='') CHR '' '' @ gpgurls repo ! i)"
proof (intro conjI allI impI)
  from repo_stanza_ends[of repo] obtain stanza where
    st: "dedent (repo_stanza repo) = stanza @ ''\<newline>''"
    by blast
  from setup_zypper_writes_repo_file[OF assms(1-4)]
  have "t' (pkgmngr ctx @ [''etc'', ''zypp'', ''repos.d'', ''mkosi.repo''])
      = Some (File (write_repos (before @ repo # after) []))" .
  also have "write_repos (before @ repo # after) []
      = write_repos before [] @ write_repos [repo] [] @ write_repos after []"
    by (rule write_repos_blocks)
  also have "write_repos [repo] []
      = (stanza @ ''\<newline>'') @ concat (map (\<lambda>l. l @ ''\<newline>'') (gpgkey_lines (gpgurls repo)))"
    using write_repos_single[of repo] st by simp
  finally have "t' (pkgmngr ctx @ [''etc'', ''zypp'', ''repos.d'', ''mkosi.repo'']) =
              Some (File (write_repos before [] @
                          stanza @ ''\<newline>'' @
                          concat (map (\<lambda>l. l @ ''\<newline>'') (gpgkey_lines (gpgurls repo))) @
                          write_repos after []))"
    by simp
  with st
  show "\<exists>stanza. dedent (repo_stanza repo) = stanza @ ''\<newline>''
          \<and> t' (pkgmngr ctx @ [''etc'', ''zypp'', ''repos.d'', ''mkosi.repo'']) =
              Some (File (write_repos before [] @
                          stanza @ ''\<newline>'' @
                          concat (map (\<lambda>l. l @ ''\<newline>'') (gpgkey_lines (gpgurls repo))) @
                          write_repos after []))"
    by blast
  show "length (gpgkey_lines (gpgurls repo)) = length (gpgurls repo)"
    by (rule gpgkey_lines_length)
  from assms(5) show "gpgkey_lines (gpgurls repo) ! 0 = ''gpgkey='' @ gpgurls repo ! 0"
    using gpgkey_lines_nth[of 0 "gpgurls repo"] by simp
next
  fix i assume "0 < i \<and> i < length (gpgurls repo)"
  then show "gpgkey_lines (gpgurls repo) ! i =
            replicate (length ''gpgkey='') CHR '' '' @ gpgurls repo ! i"
    using gpgkey_lines_nth[of i "gpgurls repo"] by simp
qed

theorem setup_zypper_gpgkey_lines_witness:
  "fst (setup_zypper quiet example_context [base_repo] zypp_tree) = Inr ()
   \<and> \<not> exists_at zypp_tree [''work'', ''pkgmngr'', ''etc'', ''zypp'', ''repos.d'', ''mkosi.repo'']
   \<and> gpgurls base_repo \<noteq> []
   \<and> snd (setup_zypper quiet example_context [base_repo] zypp_tree)
        [''work'', ''pkgmngr'', ''etc'', ''zypp'', ''repos.d'', ''mkosi.repo''] =
      Some (File (dedent (repo_stanza base_repo) @
                  ''gpgkey=http://example/key1\<newline>       http://example/key2\<newline>''))
   \<and> length (gpgkey_lines (gpgurls base_repo)) = 2
   \<and> gpgkey_lines (gpgurls base_repo) ! 0 = ''gpgkey=http://example/key1''
   \<and> gpgkey_lines (gpgurls base_repo) ! 1 = ''       http://example/key2''"
proof -
  have p: "pkgmngr example_context = [''work'', ''pkgmngr'']" "cache_dir example_context = [''work'', ''cache'']"
    by (simp_all add: example_context_def)
  have run: "setup_zypper quiet example_context ([] @ base_repo # []) zypp_tree
      = (Inr (), snd (setup_zypper quiet example_context [base_repo] zypp_tree))"
    using setup_zypper_example by (simp add: prod_eq_iff)
  have fresh: "\<not> exists_at zypp_tree (pkgmngr example_context @ [''etc'', ''zypp'', ''repos.d'', ''mkosi.repo''])"
    by (simp add: p zypp_tree_def empty_tree_def exists_at_def node_at_def)
  have frame: "\<forall>s. snd (setup_rpm quiet example_context s)
        (pkgmngr example_context @ [''etc'', ''zypp'', ''repos.d'', ''mkosi.repo''])
      = s (pkgmngr example_context @ [''etc'', ''zypp'', ''repos.d'', ''mkosi.repo''])"
    by (simp add: quiet_setup_rpm_frame)
  have apart: "\<not> prefix (pkgmngr example_context @ [''etc'', ''zypp'', ''repos.d'', ''mkosi.repo''])
              (cache_dir example_context @ [''cache'', ''zypp''])"
    by (simp add: p)
  have urls: "gpgurls base_repo \<noteq> []" by (simp add: base_repo_def)
  have lines: "concat (map (\<lambda>l. l @ ''\<newline>'') (gpgkey_lines (gpgurls base_repo)))
      = ''gpgkey=http://example/key1\<newline>       http://example/key2\<newline>''"
    by (simp add: gpgkey_lines_def base_repo_def)
  note t = setup_zypper_gpgkey_lines[OF run fresh frame apart urls]
  from t obtain stanza where
    "dedent (repo_stanza base_repo) = stanza @ ''\<newline>''"
    "snd (setup_zypper quiet example_context [base_repo] zypp_tree)
        (pkgmngr example_context @ [''etc'', ''zypp'', ''repos.d'', ''mkosi.repo'']) =
      Some (File (write_repos [] [] @ stanza @ ''\<newline>'' @
                  concat (map (\<lambda>l. l @ ''\<newline>'') (gpgkey_lines (gpgurls base_repo))) @
                  write_repos [] []))"
    by blast
  then have written: "snd (setup_zypper quiet example_context [base_repo] zypp_tree)
        [''work'', ''pkgmngr'', ''etc'', ''zypp'', ''repos.d'', ''mkosi.repo''] =
      Some (File (dedent (repo_stanza base_repo) @
                  ''gpgkey=http://example/key1\<newline>       http://example/key2\<newline>''))"
    by (simp add: p lines)
  from t have "length (gpgkey_lines (gpgurls base_repo)) = length (gpgurls base_repo)"
    and "gpgkey_lines (gpgurls base_repo) ! 0 = ''gpgkey='' @ gpgurls base_repo ! 0"
    and "0 < (1::nat) \<and> 1 < length (gpgurls base_repo) \<longrightarrow>
          gpgkey_lines (gpgurls base_repo) ! 1 =
            replicate (length ''gpgkey='') CHR '' '' @ gpgurls base_repo ! 1"
    by blast+
  then have "length (gpgkey_lines (gpgurls base_repo)) = 2"
    "gpgkey_lines (gpgurls base_repo) ! 0 = ''gpgkey=http://example/key1''"
    "gpgkey_lines (gpgurls base_repo) ! 1 = ''       http://example/key2''"
    by (simp_all add: base_repo_def)
  with written fresh urls setup_zypper_example show ?thesis by (simp add: p)
qed

section \<open>The repository definition of \<open>createrepo_apt\<close>\<close>

text \<open>
  Claim C1 says that \<open>mkosi-packages.sources\<close> consists of the six field lines, each
  starting at column zero. \<open>createrepo_apt\<close> writes its f-string as it stands, without the
  \<open>textwrap.dedent\<close> that \<open>setup_apt\<close> and \<open>createrepo_zypper\<close> apply to theirs: on the
  example context the call succeeds, and every line of the file starts with eight spaces
  and a seventh, unfinished line of eight spaces follows. The text is not the one that the
  claim describes; \<open>dedent\<close> of it is.
\<close>

theorem createrepo_apt_writes_indented_lines:
  "fst (createrepo_apt quiet example_context \<lparr>files = packages_tree, calls = []\<rparr>) = Inr ()
   \<and> files (snd (createrepo_apt quiet example_context \<lparr>files = packages_tree, calls = []\<rparr>))
        [''work'', ''pkgmngr'', ''etc'', ''apt'', ''sources.list.d'', ''mkosi-packages.sources''] =
      Some (File ''        Enabled: yes\<newline>        Types: deb\<newline>        URIs: file:///work/packages\<newline>        Suites: bookworm\<newline>        Components: main\<newline>        Trusted: yes\<newline>        '')
   \<and> ''        Enabled: yes\<newline>        Types: deb\<newline>        URIs: file:///work/packages\<newline>        Suites: bookworm\<newline>        Components: main\<newline>        Trusted: yes\<newline>        ''
      \<noteq> ''Enabled: yes\<newline>Types: deb\<newline>URIs: file:///work/packages\<newline>Suites: bookworm\<newline>Components: main\<newline>Trusted: yes\<newline>''
   \<and> dedent ''        Enabled: yes\<newline>        Types: deb\<newline>        URIs: file:///work/packages\<newline>        Suites: bookworm\<newline>        Components: main\<newline>        Trusted: yes\<newline>        ''
      = ''Enabled: yes\<newline>Types: deb\<newline>URIs: file:///work/packages\<newline>Suites: bookworm\<newline>Components: main\<newline>Trusted: yes\<newline>''"
  by code_simp

end
